theory Spec2Isabelle
  imports Main
begin

section \<open>JavaScript strings used by server.js\<close>

text \<open>
  Strings are \<open>char list\<close>. The case conversions and \<open>trim\<close> are the ASCII parts of the
  JavaScript operations: letters \<open>a\<close>..\<open>z\<close> and \<open>A\<close>..\<open>Z\<close> are converted, the ASCII white
  space characters are trimmed, every other character is left as it is. All keywords,
  provider names and replies of server.js are ASCII.
\<close>

definition lower_letters :: string where
  "lower_letters = ''abcdefghijklmnopqrstuvwxyz''"

definition upper_letters :: string where
  "upper_letters = ''ABCDEFGHIJKLMNOPQRSTUVWXYZ''"

definition toUpperChar :: "char \<Rightarrow> char" where
  "toUpperChar c = (case map_of (zip lower_letters upper_letters) c of Some d \<Rightarrow> d | None \<Rightarrow> c)"

definition toLowerChar :: "char \<Rightarrow> char" where
  "toLowerChar c = (case map_of (zip upper_letters lower_letters) c of Some d \<Rightarrow> d | None \<Rightarrow> c)"

definition toUpperCase :: "string \<Rightarrow> string" where
  "toUpperCase s = map toUpperChar s"

definition toLowerCase :: "string \<Rightarrow> string" where
  "toLowerCase s = map toLowerChar s"

text \<open>\<open>s.startsWith(k)\<close> and \<open>s.includes(k)\<close>.\<close>

fun startsWith :: "string \<Rightarrow> string \<Rightarrow> bool" where
  "startsWith s [] = True"
| "startsWith [] (k # ks) = False"
| "startsWith (c # cs) (k # ks) = (c = k \<and> startsWith cs ks)"

fun includesStr :: "string \<Rightarrow> string \<Rightarrow> bool" where
  "includesStr [] k = (k = [])"
| "includesStr (c # cs) k = (startsWith (c # cs) k \<or> includesStr cs k)"

text \<open>\<open>s.replace(p, '')\<close> with a string pattern: the first occurrence of \<open>p\<close> is removed.\<close>

fun removeFirst :: "string \<Rightarrow> string \<Rightarrow> string" where
  "removeFirst [] p = []"
| "removeFirst (c # cs) p =
     (if startsWith (c # cs) p then drop (length p) (c # cs) else c # removeFirst cs p)"

definition isSpace :: "char \<Rightarrow> bool" where
  "isSpace c = (c \<in> set [CHR 0x09, CHR 0x0A, CHR 0x0B, CHR 0x0C, CHR 0x0D, CHR '' ''])"

definition trim :: "string \<Rightarrow> string" where
  "trim s = rev (dropWhile isSpace (rev (dropWhile isSpace s)))"

text \<open>
  The truth value JavaScript gives to a value that is \<open>null\<close>/\<open>undefined\<close> (\<open>None\<close>) or a
  string: only a non-empty string is truthy.
\<close>

fun truthy :: "string option \<Rightarrow> bool" where
  "truthy None = False"
| "truthy (Some s) = (s \<noteq> [])"

section \<open>Provider configuration: \<open>AI_APIS\<close> and \<open>API_KEYS\<close>\<close>

definition primary :: string where
  "primary = ''groq''"

definition backup :: "string list" where
  "backup = [''openai'', ''huggingface'', ''gemini'']"

text \<open>The configured provider set: the primary and the backups.\<close>

definition providers :: "string list" where
  "providers = primary # backup"

text \<open>
  \<open>API_KEYS\<close> is an object with four string properties, read by computed property name.
  \<open>process.env\<close> is a map from names to strings; \<open>process.env.X || d\<close> is \<open>d\<close> when the
  variable is missing or empty.
\<close>

type_synonym api_keys = "(string \<times> string) list"

definition envOr :: "(string \<rightharpoonup> string) \<Rightarrow> string \<Rightarrow> string \<Rightarrow> string" where
  "envOr env name d = (if truthy (env name) then the (env name) else d)"

definition API_KEYS :: "(string \<rightharpoonup> string) \<Rightarrow> api_keys" where
  "API_KEYS env =
     [(''GROQ_API_KEY'', envOr env ''GROQ_API_KEY'' ''''),
      (''OPENAI_API_KEY'', envOr env ''OPENAI_API_KEY'' ''''),
      (''GEMINI_API_KEY'', envOr env ''GEMINI_API_KEY'' ''''),
      (''HUGGINGFACE_TOKEN'', envOr env ''HUGGINGFACE_TOKEN'' ''YOUR_HF_KEY_HERE'')]"

text \<open>
  The guard of \<open>getAIResponse\<close>:
  \<open>API_KEYS[`${api.toUpperCase()}_API_KEY`] || API_KEYS[`${api.toUpperCase()}_TOKEN`]\<close>.
\<close>

definition hasCredential :: "api_keys \<Rightarrow> string \<Rightarrow> bool" where
  "hasCredential keys api =
     (truthy (map_of keys (toUpperCase api @ ''_API_KEY'')) \<or>
      truthy (map_of keys (toUpperCase api @ ''_TOKEN'')))"

text \<open>
  The route \<open>GET /api/status\<close> ("Check which APIs have keys"): a provider has a key when
  its entry is non-empty and is not the placeholder text of that provider;
  \<open>availableAPIs\<close> is \<open>Object.keys(apiStatus).filter(api => apiStatus[api])\<close>.
\<close>

definition hasKey :: "api_keys \<Rightarrow> string \<Rightarrow> string \<Rightarrow> bool" where
  "hasKey keys name placeholder =
     (truthy (map_of keys name) \<and> map_of keys name \<noteq> Some placeholder)"

definition apiStatus :: "api_keys \<Rightarrow> (string \<times> bool) list" where
  "apiStatus keys =
     [(''groq'', hasKey keys ''GROQ_API_KEY'' ''YOUR_GROQ_KEY_HERE''),
      (''openai'', hasKey keys ''OPENAI_API_KEY'' ''YOUR_OPENAI_KEY_HERE''),
      (''gemini'', hasKey keys ''GEMINI_API_KEY'' ''YOUR_GEMINI_KEY_HERE''),
      (''huggingface'', hasKey keys ''HUGGINGFACE_TOKEN'' ''YOUR_HF_KEY_HERE'')]"

definition availableAPIs :: "api_keys \<Rightarrow> string list" where
  "availableAPIs keys = map fst (filter snd (apiStatus keys))"

section \<open>Provider calls\<close>

text \<open>
  What one \<open>fetch\<close> to a provider can do: reject (transport error), answer with a status
  that is not OK, answer OK with a body that has no text at the expected place (the
  property access or \<open>response.json()\<close> throws inside the \<open>try\<close>, or the HuggingFace body is
  not a non-empty array), or answer OK with the text field.
\<close>

datatype http_outcome = TransportError | NonOkStatus | MalformedPayload | OkText string

text \<open>
  \<open>callGroqAPI\<close>, \<open>callOpenAIAPI\<close> and \<open>callGeminiAPI\<close> return the trimmed text, or \<open>null\<close>
  from the \<open>catch\<close> and from the path after \<open>if (response.ok)\<close>.
\<close>

fun callGroqAPI :: "string \<Rightarrow> http_outcome \<Rightarrow> string option" where
  "callGroqAPI message (OkText t) = Some (trim t)"
| "callGroqAPI message _ = None"

fun callOpenAIAPI :: "string \<Rightarrow> http_outcome \<Rightarrow> string option" where
  "callOpenAIAPI message (OkText t) = Some (trim t)"
| "callOpenAIAPI message _ = None"

fun callGeminiAPI :: "string \<Rightarrow> http_outcome \<Rightarrow> string option" where
  "callGeminiAPI message (OkText t) = Some (trim t)"
| "callGeminiAPI message _ = None"

fun callHuggingFaceAPI :: "string \<Rightarrow> http_outcome \<Rightarrow> string option" where
  "callHuggingFaceAPI message (OkText t) =
     Some (trim (removeFirst t (''Human: '' @ message @ [CHR 0x0A] @ ''AURA:'')))"
| "callHuggingFaceAPI message _ = None"

text \<open>The table \<open>apiMethods\<close>; a name that is not a key gives \<open>undefined\<close>.\<close>

definition apiMethods :: "string \<rightharpoonup> (string \<Rightarrow> http_outcome \<Rightarrow> string option)" where
  "apiMethods =
     map_of [(''groq'', callGroqAPI), (''openai'', callOpenAIAPI),
             (''gemini'', callGeminiAPI), (''huggingface'', callHuggingFaceAPI)]"

section \<open>The local responder \<open>getFallbackResponse\<close>\<close>

text \<open>
  The object \<open>fallbacks\<close> in the order of its properties, which is the order of the
  \<open>for ... in\<close> loop. \<open>timeString\<close> is \<open>new Date().toLocaleTimeString()\<close>.
\<close>

definition fallbacks :: "string \<Rightarrow> (string \<times> string) list" where
  "fallbacks timeString =
     [(''hello'', ''Hello! I am AURA, your AI study assistant. How can I help you today?''),
      (''hi'', ''Hi there! Ready to boost your productivity and learning?''),
      (''machine learning'', ''Machine learning is a branch of AI that enables computers to learn and make decisions from data without explicit programming.''),
      (''programming'', ''Programming is the art of creating instructions for computers using languages like Python, JavaScript, or Java.''),
      (''study'', ''Effective studying involves active recall, spaced repetition, and taking regular breaks. What subject are you working on?''),
      (''stress'', ''I can help you manage stress through the 40-minute work sessions and safe mode activation.''),
      (''weather'', ''I cannot check weather, but I hope you have a productive day ahead!''),
      (''time'', ''It's currently around '' @ timeString @ ''.''),
      (''help'', ''I can assist with studies, manage your work sessions, activate AI Clone mode, and provide stress management support.'')]"

definition genericReply :: string where
  "genericReply = ''I understand what you're asking. How can I help you with your studies or productivity today?''"

text \<open>The loop over the table: the first keyword the lower-cased message includes.\<close>

fun scanFallbacks :: "string \<Rightarrow> (string \<times> string) list \<Rightarrow> string" where
  "scanFallbacks lowerMessage [] = genericReply"
| "scanFallbacks lowerMessage ((keyword, reply) # rest) =
     (if includesStr lowerMessage keyword then reply else scanFallbacks lowerMessage rest)"

definition getFallbackResponse :: "string \<Rightarrow> string \<Rightarrow> string" where
  "getFallbackResponse timeString message =
     scanFallbacks (toLowerCase message) (fallbacks timeString)"

section \<open>The orchestrator \<open>getAIResponse\<close>\<close>

text \<open>
  The mutable part of \<open>AI_APIS\<close> is \<open>currentActive\<close>. One invocation makes at most four
  outbound calls; \<open>net n api\<close> is what the \<open>n\<close>-th call of the invocation, made to provider
  \<open>api\<close>, meets. The result carries the reply, the value of \<open>currentActive\<close> after the call
  and the calls made, in order: the phase, the provider and what its call function
  returned.
\<close>

datatype phase = Preferred | Fallback

type_synonym attempt = "phase \<times> string \<times> string option"

datatype js_error = TypeError

record ai_result =
  reply :: string
  active :: string
  attempts :: "attempt list"

text \<open>
  The loop \<open>for (let backupAPI of AI_APIS.backup)\<close>. \<open>n\<close> counts the calls already made,
  \<open>tr\<close> holds them in reverse order.
\<close>

fun tryBackups ::
  "api_keys \<Rightarrow> (nat \<Rightarrow> string \<Rightarrow> http_outcome) \<Rightarrow> string \<Rightarrow> string \<Rightarrow> string \<Rightarrow>
   attempt list \<Rightarrow> string list \<Rightarrow> js_error + ai_result" where
  "tryBackups keys net timeString message cur tr [] =
     Inr \<lparr>reply = getFallbackResponse timeString message, active = cur, attempts = rev tr\<rparr>"
| "tryBackups keys net timeString message cur tr (backupAPI # rest) =
     (if hasCredential keys backupAPI then
        (case apiMethods backupAPI of
           None \<Rightarrow> Inl TypeError
         | Some call \<Rightarrow>
             (let response = call message (net (length tr) backupAPI);
                  tr' = (Fallback, backupAPI, response) # tr
              in if truthy response
                 then Inr \<lparr>reply = the response, active = backupAPI, attempts = rev tr'\<rparr>
                 else tryBackups keys net timeString message cur tr' rest))
      else tryBackups keys net timeString message cur tr rest)"

definition getAIResponse ::
  "api_keys \<Rightarrow> (nat \<Rightarrow> string \<Rightarrow> http_outcome) \<Rightarrow> string \<Rightarrow> string \<Rightarrow> string \<Rightarrow>
   js_error + ai_result" where
  "getAIResponse keys net timeString currentActive message =
     (if hasCredential keys currentActive then
        (case apiMethods currentActive of
           None \<Rightarrow> Inl TypeError
         | Some call \<Rightarrow>
             (let response = call message (net 0 currentActive)
              in if truthy response
                 then Inr \<lparr>reply = the response, active = currentActive,
                           attempts = [(Preferred, currentActive, response)]\<rparr>
                 else tryBackups keys net timeString message currentActive
                        [(Preferred, currentActive, response)] backup))
      else tryBackups keys net timeString message currentActive [] backup)"

text \<open>Reading one call of the record of calls.\<close>

definition phase_of :: "attempt \<Rightarrow> phase" where
  "phase_of a = fst a"

definition api_of :: "attempt \<Rightarrow> string" where
  "api_of a = fst (snd a)"

definition result_of :: "attempt \<Rightarrow> string option" where
  "result_of a = snd (snd a)"

text \<open>A call succeeded when \<open>if (response)\<close> took its result.\<close>

definition succeeded :: "attempt \<Rightarrow> bool" where
  "succeeded a = truthy (result_of a)"

text \<open>
  A sequence of invocations, each with its own network behaviour, clock text and
  message, from a value of \<open>currentActive\<close>; the value after the last one.
\<close>

definition initialActive :: string where
  "initialActive = ''groq''"


text \<open>
  The reply the specification describes for the local responder: the reply of the first
  table entry whose keyword is part of the lower-cased message, else the generic one.
\<close>

definition firstMatchReply_spec :: "string \<Rightarrow> string \<Rightarrow> string" where
  "firstMatchReply_spec timeString message =
     (case find (\<lambda>(keyword, answer). includesStr (toLowerCase message) keyword)
             (fallbacks timeString) of
        Some (keyword, answer) \<Rightarrow> answer
      | None \<Rightarrow> genericReply)"

text \<open>Network behaviours and environments used in the examples.\<close>

definition net_down :: "nat \<Rightarrow> string \<Rightarrow> http_outcome" where
  "net_down n api = TransportError"


definition net_up :: "nat \<Rightarrow> string \<Rightarrow> http_outcome" where
  "net_up n api = OkText ''Sure.''"

definition env_none :: "string \<rightharpoonup> string" where
  "env_none = map_of []"

definition env_groq_openai :: "string \<rightharpoonup> string" where
  "env_groq_openai = map_of [(''GROQ_API_KEY'', ''gsk-1''), (''OPENAI_API_KEY'', ''sk-1'')]"

section \<open>Responses as JavaScript objects\<close>

text \<open>
  The handlers return object literals; an object is the list of its properties in
  insertion order. Assigning a new property (\<open>result.voiceMessage = ...\<close>) appends it.
\<close>

datatype jsval = JStr string | JNum int | JBool bool | JArr "jsval list"
  | JObj "(string \<times> jsval) list"

type_synonym response = "(string \<times> jsval) list"

definition getProp :: "response \<Rightarrow> string \<Rightarrow> jsval option" where
  "getProp r name = map_of r name"

definition status :: "response \<Rightarrow> jsval option" where
  "status r = getProp r ''status''"

definition messageOf :: "response \<Rightarrow> string" where
  "messageOf r = (case getProp r ''message'' of Some (JStr m) \<Rightarrow> m | _ \<Rightarrow> ''undefined'')"

definition strings :: "string list \<Rightarrow> jsval" where
  "strings xs = JArr (map JStr xs)"

text \<open>Decimal text of a number, as template literals and \<open>toString\<close> produce it.\<close>

definition digitChar :: "nat \<Rightarrow> char" where
  "digitChar d = ''0123456789'' ! (d mod 10)"

function showNat :: "nat \<Rightarrow> string" where
  "showNat n = (if n < 10 then [digitChar n] else showNat (n div 10) @ [digitChar (n mod 10)])"
  by pat_completeness auto
termination
  by (relation "measure id") auto

definition showInt :: "int \<Rightarrow> string" where
  "showInt i = (if i < 0 then CHR ''-'' # showNat (nat (- i)) else showNat (nat i))"

text \<open>\<open>s.padStart(2, '0')\<close>.\<close>

definition padStart2 :: "string \<Rightarrow> string" where
  "padStart2 s = replicate (2 - length s) CHR ''0'' @ s"

section \<open>Voice text: \<open>generateVoiceResponse\<close>\<close>

definition voiceResponses :: "(string \<times> string \<times> string) list" where
  "voiceResponses =
     [(''conversation'', ''I understand what you're asking. '', '' Is there anything else you'd like to know?''),
      (''scan'', ''I've scanned the document. '', '' Would you like me to explain any specific part?''),
      (''timer'', ''Regarding your work session: '', '' Keep up the great work!''),
      (''stress'', ''I'm here to help with your wellbeing. '', '' Take your time and breathe deeply.'')]"

definition generateVoiceResponse :: "string \<Rightarrow> string \<Rightarrow> string" where
  "generateVoiceResponse txt responseType =
     (let response = (case map_of voiceResponses responseType of
                        Some pr \<Rightarrow> pr
                      | None \<Rightarrow> the (map_of voiceResponses ''conversation''))
      in fst response @ txt @ snd response)"

section \<open>The timer registry \<open>activeTimers\<close>\<close>

text \<open>
  Times are \<open>Date.now()\<close> in milliseconds. Each function takes the clock readings it
  makes as arguments, in the order it makes them. The registry is the \<open>Map\<close> from user
  identifiers to timer objects; the functions return it updated.
\<close>

record timer =
  startTime :: int
  duration :: int
  alarmCount :: int
  isActive :: bool
  mode :: string
  sessionNumber :: int

type_synonym timers = "string \<rightharpoonup> timer"

definition startWorkTimer :: "int \<Rightarrow> timers \<Rightarrow> string \<Rightarrow> response \<times> timers" where
  "startWorkTimer now activeTimers userId =
     (let timerData = \<lparr>startTime = now, duration = 40 * 60 * 1000, alarmCount = 0,
                       isActive = True, mode = ''work'', sessionNumber = 1\<rparr>
      in ([(''success'', JBool True),
           (''message'', JStr ''Starting 40-minute focused work session with AI monitoring''),
           (''timer'', JStr ''40:00''),
           (''features'', strings [''Stress monitoring active'', ''Break reminders enabled'',
                                    ''AI Clone on standby'']),
           (''status'', JStr ''timer_started''),
           (''sessionNumber'', JNum 1)],
          activeTimers(userId \<mapsto> timerData)))"

definition getMotivationalMessage :: "int \<Rightarrow> string" where
  "getMotivationalMessage minutesLeft =
     (if minutesLeft > 30 then ''Great start! You're in the flow zone.''
      else if minutesLeft > 20 then ''Halfway there! Keep up the excellent focus.''
      else if minutesLeft > 10 then ''Final stretch! You're doing amazing.''
      else ''Almost done! Finish strong!'')"

text \<open>
  \<open>handleTimerComplete\<close> reads the clock once, in its \<open>else\<close> branch. With no record for
  the user, \<open>timer.alarmCount++\<close> throws.
\<close>

definition handleTimerComplete :: "int \<Rightarrow> timers \<Rightarrow> string \<Rightarrow> js_error + response \<times> timers" where
  "handleTimerComplete now activeTimers userId =
     (case activeTimers userId of
        None \<Rightarrow> Inl TypeError
      | Some timer0 \<Rightarrow>
          (let timer1 = timer0\<lparr>alarmCount := alarmCount timer0 + 1\<rparr>
           in if alarmCount timer1 \<ge> 2 then
                (let timer2 = timer1\<lparr>isActive := False\<rparr>
                 in Inr ([(''status'', JStr ''ai_clone_activated''),
                          (''message'', JStr ''Outstanding! You've completed 80 minutes of focused work. AI Clone is now taking over your background tasks.''),
                          (''alarmCount'', JNum (alarmCount timer2)),
                          (''action'', JStr ''clone_mode''),
                          (''totalWorkTime'', JStr ''80 minutes''),
                          (''cloneActivities'', strings
                             [''Summarizing your study materials'',
                              ''Organizing notes and resources'',
                              ''Preparing review questions'',
                              ''Scheduling your next study session'']),
                          (''breakRecommendation'', JStr ''Take a 10-15 minute break while I handle these tasks.'')],
                         activeTimers(userId \<mapsto> timer2)))
              else
                (let timer2 = timer1\<lparr>sessionNumber := 2, startTime := now\<rparr>
                 in Inr ([(''status'', JStr ''session_complete''),
                          (''message'', JStr (''Excellent! Session '' @ showInt (sessionNumber timer2 - 1)
                              @ '' completed. Take a 5-minute break, then we'll start session 2.'')),
                          (''alarmCount'', JNum (alarmCount timer2)),
                          (''nextSession'', JStr ''ready_to_start''),
                          (''breakDuration'', JStr ''5 minutes''),
                          (''sessionProgress'', JStr (showInt (alarmCount timer2) @ ''/2 sessions completed'')),
                          (''encouragement'', JStr ''You're building great study habits!'')],
                         activeTimers(userId \<mapsto> timer2)))))"

definition noActiveTimer :: response where
  "noActiveTimer =
     [(''status'', JStr ''no_active_timer''),
      (''message'', JStr ''No active work session. Start one to begin productive studying!''),
      (''suggestion'', JStr ''Try: \"start 40 minute session\" or \"begin work timer\"'')]"

text \<open>
  \<open>checkTimerStatus\<close>: \<open>now\<close> is its own clock reading, \<open>now2\<close> the later one of
  \<open>handleTimerComplete\<close>. The property \<open>progress\<close> of the \<open>active\<close> response, a rounded
  floating-point ratio, is left out of the object.
\<close>

definition checkTimerStatus ::
  "int \<Rightarrow> int \<Rightarrow> timers \<Rightarrow> string \<Rightarrow> js_error + response \<times> timers" where
  "checkTimerStatus now now2 activeTimers userId =
     (case activeTimers userId of
        None \<Rightarrow> Inr (noActiveTimer, activeTimers)
      | Some timer0 \<Rightarrow>
          if \<not> isActive timer0 then Inr (noActiveTimer, activeTimers)
          else
            (let elapsed = now - startTime timer0;
                 remaining = max 0 (duration timer0 - elapsed);
                 minutes = remaining div 60000;
                 seconds = (remaining mod 60000) div 1000
             in if remaining \<le> 0 then handleTimerComplete now2 activeTimers userId
                else Inr ([(''status'', JStr ''active''),
                           (''timeLeft'', JStr (padStart2 (showInt minutes) @ '':''
                               @ padStart2 (showInt seconds))),
                           (''sessionNumber'', JNum (sessionNumber timer0)),
                           (''message'', JStr (''Work session '' @ showInt (sessionNumber timer0)
                               @ '' in progress. '' @ showInt minutes @ '' minutes ''
                               @ showInt seconds @ '' seconds remaining.'')),
                           (''motivationalMessage'', JStr (getMotivationalMessage minutes))],
                          activeTimers)))"

section \<open>Safe mode and AI clone\<close>

text \<open>\<open>draw\<close> is \<open>Math.floor(Math.random() * 30)\<close>.\<close>

definition activateSafeMode :: "int \<Rightarrow> response" where
  "activateSafeMode draw =
     [(''status'', JStr ''safe_mode_active''),
      (''message'', JStr ''Safe Mode activated. Detecting elevated stress levels - let's take care of your wellbeing.''),
      (''stressLevel'', JNum (draw + 70)),
      (''actions'', strings [''Playing calming background sounds'', ''Activating breathing guide'',
                             ''Dimming notifications'', ''Preparing relaxation exercises'']),
      (''breathingExercise'', JObj
         [(''instruction'', JStr ''Let's do some deep breathing together:''),
          (''pattern'', JStr ''Inhale for 4 counts, hold for 4, exhale for 6''),
          (''duration'', JStr ''2 minutes''),
          (''benefit'', JStr ''This will activate your parasympathetic nervous system'')]),
      (''nextSteps'', JStr ''AI Clone will handle urgent tasks while you recover. Focus on your breathing.'')]"

definition cloneCapabilities :: "(string \<times> response) list" where
  "cloneCapabilities =
     [(''standard'',
       [(''status'', JStr ''clone_activated''),
        (''message'', JStr ''AI Clone activated and working autonomously in background.''),
        (''tasks'', strings [''Document analysis and summarization'',
                             ''Research compilation and organization'',
                             ''Note structuring and review prep'',
                             ''Schedule optimization for study sessions'']),
        (''workingTime'', JStr ''15-20 minutes''),
        (''notification'', JStr ''I'll notify you when tasks are completed.'')]),
      (''advanced'',
       [(''status'', JStr ''advanced_clone_active''),
        (''message'', JStr ''Advanced AI Clone mode engaged - handling complex cognitive tasks.''),
        (''tasks'', strings [''Deep document analysis with insights'',
                             ''Cross-referencing multiple sources'',
                             ''Creating comprehensive study guides'',
                             ''Generating practice questions and quizzes'',
                             ''Building concept maps and connections'']),
        (''workingTime'', JStr ''25-30 minutes''),
        (''notification'', JStr ''Advanced processing in progress - perfect time for your break.'')])]"

definition activateAIClone :: "string \<Rightarrow> response" where
  "activateAIClone cloneMode =
     (case map_of cloneCapabilities cloneMode of
        Some r \<Rightarrow> r
      | None \<Rightarrow> the (map_of cloneCapabilities ''standard''))"

section \<open>The command router \<open>handleSpecialCommands\<close>\<close>

text \<open>
  The result is the response object, or \<open>null\<close> (\<open>None\<close>) when no trigger matches, with
  the registry after the call. \<open>now\<close> and \<open>now2\<close> are the clock readings of the timer
  functions, \<open>draw\<close> the random draw of safe mode.
\<close>

definition withVoice :: "response \<Rightarrow> string \<Rightarrow> response" where
  "withVoice result responseType =
     result @ [(''voiceMessage'', JStr (generateVoiceResponse (messageOf result) responseType))]"

definition handleSpecialCommands ::
  "int \<Rightarrow> int \<Rightarrow> int \<Rightarrow> timers \<Rightarrow> string \<Rightarrow> string \<Rightarrow>
   js_error + response option \<times> timers" where
  "handleSpecialCommands now now2 draw activeTimers command userId =
     (let lowerCommand = toLowerCase command in
      if includesStr lowerCommand ''start work'' \<or> includesStr lowerCommand ''40 minute''
         \<or> includesStr lowerCommand ''begin session'' then
        (case startWorkTimer now activeTimers userId of
           (result, timers') \<Rightarrow> Inr (Some (withVoice result ''timer''), timers'))
      else if includesStr lowerCommand ''timer status'' \<or> includesStr lowerCommand ''time left''
         \<or> includesStr lowerCommand ''how much time'' then
        (case checkTimerStatus now now2 activeTimers userId of
           Inl e \<Rightarrow> Inl e
         | Inr (result, timers') \<Rightarrow> Inr (Some (withVoice result ''timer''), timers'))
      else if includesStr lowerCommand ''stressed'' \<or> includesStr lowerCommand ''anxious''
         \<or> includesStr lowerCommand ''overwhelmed'' \<or> includesStr lowerCommand ''safe mode'' then
        Inr (Some (withVoice (activateSafeMode draw) ''stress''), activeTimers)
      else if includesStr lowerCommand ''clone'' \<or> includesStr lowerCommand ''background tasks''
         \<or> includesStr lowerCommand ''auto work'' then
        (let cloneMode = (if includesStr lowerCommand ''advanced'' then ''advanced'' else ''standard'')
         in Inr (Some (withVoice (activateAIClone cloneMode) ''conversation''), activeTimers))
      else if includesStr lowerCommand ''scan'' \<or> includesStr lowerCommand ''read document''
         \<or> includesStr lowerCommand ''analyze'' then
        Inr (Some [(''status'', JStr ''scan_mode_ready''),
                   (''message'', JStr ''I am ready to scan and analyze documents. Please show me what you would like me to read.''),
                   (''voiceMessage'', JStr ''I am ready to scan documents for you. Please show the document to your camera and I will read and analyze it for you.''),
                   (''action'', JStr ''prepare_camera_scan'')],
             activeTimers)
      else if includesStr lowerCommand ''multi mode'' then
        Inr (Some (withVoice
               [(''status'', JStr ''multi_mode_active''),
                (''message'', JStr ''Multi Mode activated! All AURA systems online: Voice AI, Timer, Stress Monitor, Document Scanner, and AI Clone.''),
                (''activeFeatures'', strings [''Voice AI'', ''40-min Timer'', ''Stress Detection'',
                                              ''AI Clone'', ''Document Scanner'']),
                (''capabilities'', JStr ''Full AURA experience with voice commands and document scanning.'')]
               ''conversation''),
             activeTimers)
      else Inr (None, activeTimers))"

section \<open>The route \<open>POST /api/aura/process\<close>\<close>

text \<open>
  The process state the route works on, and what one request meets: the clock readings,
  the random draw, the clock text and the network. The reply is the JSON body without
  its \<open>timestamp\<close>. \<open>userId\<close> is \<open>None\<close> when the request body has none.
\<close>

record server =
  currentActive :: string
  activeTimers :: timers

record request_env =
  clock :: int
  clock2 :: int
  draw :: int
  timeString :: string
  network :: "nat \<Rightarrow> string \<Rightarrow> http_outcome"

definition auraProcess ::
  "api_keys \<Rightarrow> request_env \<Rightarrow> server \<Rightarrow> string \<Rightarrow> string option \<Rightarrow> js_error + response \<times> server" where
  "auraProcess keys env srv command userIdOpt =
     (let userId = (case userIdOpt of None \<Rightarrow> ''default'' | Some u \<Rightarrow> u) in
      case handleSpecialCommands (clock env) (clock2 env) (draw env) (activeTimers srv) command userId of
        Inl e \<Rightarrow> Inl e
      | Inr (Some specialResponse, timers') \<Rightarrow>
          Inr ([(''success'', JBool True),
                (''response'', JObj specialResponse),
                (''api_used'', JStr ''internal_system''),
                (''commandType'', JStr ''system_command'')],
               srv\<lparr>activeTimers := timers'\<rparr>)
      | Inr (None, timers') \<Rightarrow>
          (case getAIResponse keys (network env) (timeString env) (currentActive srv) command of
             Inl e \<Rightarrow> Inl e
           | Inr r \<Rightarrow>
               Inr ([(''success'', JBool True),
                     (''response'', JStr (reply r)),
                     (''api_used'', JStr (active r)),
                     (''commandType'', JStr ''ai_conversation'')],
                    srv\<lparr>currentActive := active r, activeTimers := timers'\<rparr>)))"

section \<open>Sequences of timer calls\<close>

datatype timer_op = Start string int | Poll string int int

fun runTimerOps :: "timers \<Rightarrow> timer_op list \<Rightarrow> js_error + timers" where
  "runTimerOps tm [] = Inr tm"
| "runTimerOps tm (Start u now # ops) = runTimerOps (snd (startWorkTimer now tm u)) ops"
| "runTimerOps tm (Poll u now now2 # ops) =
     (case checkTimerStatus now now2 tm u of
        Inl e \<Rightarrow> Inl e
      | Inr (r, tm') \<Rightarrow> runTimerOps tm' ops)"

text \<open>The registry \<open>new Map()\<close> the process starts with.\<close>

definition noTimers :: timers where
  "noTimers = map_of []"

section \<open>The routing policy as the specification words it\<close>

text \<open>
  The trigger sets in the precedence order of the specification, with the keywords of
  each; the first set with a keyword in the lower-cased command wins.
\<close>

datatype trigger = SessionStart | TimerStatus | SafeMode | Clone | ScanIntent | ModeSwitch

definition triggerKeywords :: "(trigger \<times> string list) list" where
  "triggerKeywords =
     [(SessionStart, [''start work'', ''40 minute'', ''begin session'']),
      (TimerStatus, [''timer status'', ''time left'', ''how much time'']),
      (SafeMode, [''stressed'', ''anxious'', ''overwhelmed'', ''safe mode'']),
      (Clone, [''clone'', ''background tasks'', ''auto work'']),
      (ScanIntent, [''scan'', ''read document'', ''analyze'']),
      (ModeSwitch, [''multi mode''])]"

definition firstTrigger_spec :: "string \<Rightarrow> trigger option" where
  "firstTrigger_spec command =
     map_option fst
       (find (\<lambda>(tg, kws). list_ex (includesStr (toLowerCase command)) kws) triggerKeywords)"

text \<open>The status tags the handler of each trigger can answer with.\<close>

fun triggerStatuses :: "trigger \<Rightarrow> string list" where
  "triggerStatuses SessionStart = [''timer_started'']"
| "triggerStatuses TimerStatus =
     [''no_active_timer'', ''active'', ''session_complete'', ''ai_clone_activated'']"
| "triggerStatuses SafeMode = [''safe_mode_active'']"
| "triggerStatuses Clone = [''clone_activated'', ''advanced_clone_active'']"
| "triggerStatuses ScanIntent = [''scan_mode_ready'']"
| "triggerStatuses ModeSwitch = [''multi_mode_active'']"

definition statusIn :: "response \<Rightarrow> string list \<Rightarrow> bool" where
  "statusIn r tags = (case status r of Some (JStr tag) \<Rightarrow> tag \<in> set tags | _ \<Rightarrow> False)"

section \<open>Predicates and values used in the statements\<close>

text \<open>
  What the loop over \<open>bs\<close> leaves behind when it ends in \<open>r\<close> after making the calls
  \<open>new\<close>: the calls go to the providers of \<open>bs\<close> that have a credential, in order; only
  the last call can have succeeded; a success sets \<open>currentActive\<close> and is the reply,
  otherwise \<open>currentActive\<close> is kept and the reply is the local one.
\<close>

definition backupProp ::
  "api_keys \<Rightarrow> string \<Rightarrow> string \<Rightarrow> string \<Rightarrow> string list \<Rightarrow> ai_result \<Rightarrow> attempt list \<Rightarrow> bool" where
  "backupProp keys t msg cur bs r new \<longleftrightarrow>
     (\<exists>rest. filter (hasCredential keys) bs = map api_of new @ rest \<and>
        ((\<forall>a\<in>set new. \<not> succeeded a) \<longrightarrow> rest = [])) \<and>
     (\<forall>a\<in>set new. phase_of a = Fallback) \<and>
     (\<forall>a\<in>set (butlast new). \<not> succeeded a) \<and>
     ((\<forall>a\<in>set new. \<not> succeeded a) \<longrightarrow>
        active r = cur \<and> reply r = getFallbackResponse t msg) \<and>
     (\<forall>a\<in>set new. succeeded a \<longrightarrow> active r = api_of a \<and> reply r = the (result_of a))"

text \<open>The providers one invocation called, in order.\<close>

definition calledProviders :: "js_error + ai_result \<Rightarrow> string list" where
  "calledProviders x = (case x of Inl e \<Rightarrow> [] | Inr r \<Rightarrow> map api_of (attempts r))"

text \<open>The states of a timer record: running in cycle one or two, or finished.\<close>

definition timerOk :: "timer \<Rightarrow> bool" where
  "timerOk t \<longleftrightarrow>
     (isActive t \<and> (alarmCount t = 0 \<or> alarmCount t = 1)) \<or> (\<not> isActive t \<and> alarmCount t = 2)"

text \<open>A command matches a trigger when it includes one of the trigger's keywords.\<close>

definition matches :: "string \<Rightarrow> trigger \<Rightarrow> bool" where
  "matches command tg =
     (case map_of triggerKeywords tg of
        Some kws \<Rightarrow> list_ex (includesStr (toLowerCase command)) kws | None \<Rightarrow> False)"

text \<open>Values of the examples.\<close>

definition demo_time :: string where
  "demo_time = ''10:00:00 AM''"

definition demo_keys :: api_keys where
  "demo_keys = API_KEYS env_groq_openai"

definition demo_env :: request_env where
  "demo_env = \<lparr>clock = 0, clock2 = 0, draw = 12, timeString = demo_time, network = net_down\<rparr>"

definition demo_server :: server where
  "demo_server = \<lparr>currentActive = initialActive, activeTimers = noTimers\<rparr>"

definition finished_timer :: timer where
  "finished_timer = \<lparr>startTime = 0, duration = 2400000, alarmCount = 2, isActive = False,
                      mode = ''work'', sessionNumber = 2\<rparr>"

section \<open>Facts about the string operations\<close>

lemma startsWith_iff: "startsWith s k \<longleftrightarrow> (\<exists>post. s = k @ post)"
  by (induction s k rule: startsWith.induct) auto

lemma includesStr_iff: "includesStr s k \<longleftrightarrow> (\<exists>pre post. s = pre @ k @ post)"
proof (induction s)
  case Nil
  then show ?case by simp
next
  case (Cons c cs)
  show ?case
  proof
    assume "includesStr (c # cs) k"
    then consider "startsWith (c # cs) k" | "includesStr cs k" by auto
    then show "\<exists>pre post. c # cs = pre @ k @ post"
    proof cases
      case 1
      then obtain post where "c # cs = k @ post" by (auto simp: startsWith_iff)
      then have "c # cs = [] @ k @ post" by simp
      then show ?thesis by blast
    next
      case 2
      then obtain pre post where "cs = pre @ k @ post" using Cons.IH by auto
      then have "c # cs = (c # pre) @ k @ post" by simp
      then show ?thesis by blast
    qed
  next
    assume "\<exists>pre post. c # cs = pre @ k @ post"
    then obtain pre post where e: "c # cs = pre @ k @ post" by auto
    show "includesStr (c # cs) k"
    proof (cases pre)
      case Nil
      then have "startsWith (c # cs) k" using e by (simp add: startsWith_iff)
      then show ?thesis by simp
    next
      case (Cons p ps)
      then have "cs = ps @ k @ post" using e by simp
      then show ?thesis using Cons.IH by auto
    qed
  qed
qed

section \<open>The orchestrator: the shape of every invocation\<close>

lemma apiMethods_providers: "p \<in> set providers \<Longrightarrow> \<exists>call. apiMethods p = Some call"
  by (auto simp: providers_def primary_def backup_def apiMethods_def)

lemma tryBackups_total:
  "set bs \<subseteq> set providers \<Longrightarrow> \<exists>r. tryBackups keys net t msg cur tr bs = Inr r"
proof (induction bs arbitrary: tr)
  case Nil
  then show ?case by simp
next
  case (Cons b bs)
  then obtain call where "apiMethods b = Some call" using apiMethods_providers [of b] by auto
  then show ?case using Cons by (simp add: Let_def)
qed

lemma scanFallbacks_nonempty: "\<forall>(k, r) \<in> set tab. r \<noteq> [] \<Longrightarrow> scanFallbacks l tab \<noteq> []"
  by (induction l tab rule: scanFallbacks.induct) (auto simp: genericReply_def)

lemma getFallbackResponse_nonempty: "getFallbackResponse t msg \<noteq> []"
  unfolding getFallbackResponse_def
  by (rule scanFallbacks_nonempty) (auto simp: fallbacks_def)

lemma truthy_the: "truthy x \<Longrightarrow> the x \<noteq> []"
  by (cases x) auto

lemma tryBackups_attempts:
  "tryBackups keys net t msg cur tr bs = Inr r \<Longrightarrow>
   \<exists>new. attempts r = rev tr @ new \<and> backupProp keys t msg cur bs r new"
proof (induction bs arbitrary: tr)
  case Nil
  then show ?case by (auto simp: backupProp_def)
next
  case (Cons b bs)
  show ?case
  proof (cases "hasCredential keys b")
    case False
    then have "tryBackups keys net t msg cur tr bs = Inr r" using Cons.prems by simp
    from Cons.IH [OF this] obtain new where
      "attempts r = rev tr @ new" "backupProp keys t msg cur bs r new" by auto
    then show ?thesis using False by (auto simp: backupProp_def)
  next
    case True
    then obtain call where c: "apiMethods b = Some call"
      using Cons.prems by (auto split: option.splits)
    define a where "a = (Fallback, b, call msg (net (length tr) b))"
    show ?thesis
    proof (cases "succeeded a")
      case True
      then have "r = \<lparr>reply = the (result_of a), active = b, attempts = rev (a # tr)\<rparr>"
        using Cons.prems \<open>hasCredential keys b\<close> c
        by (simp add: a_def Let_def succeeded_def result_of_def)
      then have "attempts r = rev tr @ [a]" "backupProp keys t msg cur (b # bs) r [a]"
        using True \<open>hasCredential keys b\<close>
        by (auto simp: backupProp_def a_def api_of_def phase_of_def)
      then show ?thesis by blast
    next
      case False
      then have "tryBackups keys net t msg cur (a # tr) bs = Inr r"
        using Cons.prems \<open>hasCredential keys b\<close> c
        by (simp add: a_def Let_def succeeded_def result_of_def)
      from Cons.IH [OF this] obtain new where
        n: "attempts r = rev (a # tr) @ new" "backupProp keys t msg cur bs r new" by auto
      have "backupProp keys t msg cur (b # bs) r (a # new)"
        using n(2) False \<open>hasCredential keys b\<close>
        by (auto simp: backupProp_def a_def api_of_def phase_of_def dest: in_set_butlastD)
      then show ?thesis using n(1) by auto
    qed
  qed
qed

lemma backup_in_providers: "set backup \<subseteq> set providers"
  by (auto simp: providers_def)



text \<open>The shape of every run of \<open>getAIResponse\<close> from a configured provider.\<close>

lemma getAIResponse_shape:
  assumes "cur \<in> set providers"
  shows "\<exists>r. getAIResponse keys net t cur msg = Inr r \<and>
    ((\<not> hasCredential keys cur \<and> backupProp keys t msg cur backup r (attempts r)) \<or>
     (hasCredential keys cur \<and> (\<exists>res. truthy res \<and> attempts r = [(Preferred, cur, res)] \<and>
        active r = cur \<and> reply r = the res)) \<or>
     (hasCredential keys cur \<and> (\<exists>res fb. \<not> truthy res \<and>
        attempts r = (Preferred, cur, res) # fb \<and> backupProp keys t msg cur backup r fb)))"
proof (cases "hasCredential keys cur")
  case False
  then have g: "getAIResponse keys net t cur msg = tryBackups keys net t msg cur [] backup"
    by (simp add: getAIResponse_def)
  obtain r where r: "tryBackups keys net t msg cur [] backup = Inr r"
    using tryBackups_total [OF backup_in_providers] by blast
  from tryBackups_attempts [OF r] have "backupProp keys t msg cur backup r (attempts r)"
    by auto
  then show ?thesis using False g r by simp
next
  case True
  obtain call where c: "apiMethods cur = Some call"
    using apiMethods_providers [OF assms] by blast
  define res where "res = call msg (net 0 cur)"
  show ?thesis
  proof (cases "truthy res")
    case True
    then have "getAIResponse keys net t cur msg =
        Inr \<lparr>reply = the res, active = cur, attempts = [(Preferred, cur, res)]\<rparr>"
      using \<open>hasCredential keys cur\<close> c by (simp add: getAIResponse_def res_def Let_def)
    then show ?thesis using True \<open>hasCredential keys cur\<close> by simp
  next
    case False
    then have g: "getAIResponse keys net t cur msg =
        tryBackups keys net t msg cur [(Preferred, cur, res)] backup"
      using \<open>hasCredential keys cur\<close> c by (simp add: getAIResponse_def res_def Let_def)
    obtain r where r: "tryBackups keys net t msg cur [(Preferred, cur, res)] backup = Inr r"
      using tryBackups_total [OF backup_in_providers] by blast
    from tryBackups_attempts [OF r] obtain fb where
      "attempts r = (Preferred, cur, res) # fb" "backupProp keys t msg cur backup r fb" by auto
    then have "\<exists>res fb. \<not> truthy res \<and> attempts r = (Preferred, cur, res) # fb \<and>
        backupProp keys t msg cur backup r fb"
      using False by blast
    then show ?thesis using \<open>hasCredential keys cur\<close> g r by simp
  qed
qed

section \<open>Example invocations\<close>

lemma groq_configured: "''groq'' \<in> set providers"
  by (simp add: providers_def primary_def)





lemma placeholder_counts_as_credential: "hasCredential (API_KEYS env) ''huggingface''"
  by (simp add: hasCredential_def API_KEYS_def envOr_def toUpperCase_def toUpperChar_def
        lower_letters_def upper_letters_def) (cases "env ''HUGGINGFACE_TOKEN''"; simp)



section \<open>The orchestrator: claims\<close>

text \<open>
  Claim C1. Whatever the message, the entries of \<open>API_KEYS\<close> and the outcome of every
  provider call (text, empty text, transport error, status that is not OK, malformed
  payload), \<open>getAIResponse\<close> called with \<open>currentActive\<close> a configured provider returns:
  no exception reaches the caller, and the reply is a non-empty string.
\<close>

theorem getAIResponse_returns_text:
  assumes "cur \<in> set providers"
  shows "\<exists>r. getAIResponse keys net t cur msg = Inr r \<and> reply r \<noteq> []"
proof -
  obtain r where r: "getAIResponse keys net t cur msg = Inr r" and
    s: "(\<not> hasCredential keys cur \<and> backupProp keys t msg cur backup r (attempts r)) \<or>
     (hasCredential keys cur \<and> (\<exists>res. truthy res \<and> attempts r = [(Preferred, cur, res)] \<and>
        active r = cur \<and> reply r = the res)) \<or>
     (hasCredential keys cur \<and> (\<exists>res fb. \<not> truthy res \<and>
        attempts r = (Preferred, cur, res) # fb \<and> backupProp keys t msg cur backup r fb))"
    using getAIResponse_shape [OF assms] by blast
  have bp: "reply r \<noteq> []" if "backupProp keys t msg cur backup r fb" for fb
  proof (cases "\<forall>a\<in>set fb. \<not> succeeded a")
    case True
    then show ?thesis using that by (simp add: backupProp_def getFallbackResponse_nonempty)
  next
    case False
    then obtain a where "a \<in> set fb" "succeeded a" by blast
    then show ?thesis using that by (auto simp: backupProp_def succeeded_def truthy_the)
  qed
  from s have "reply r \<noteq> []"
    using bp by (auto simp: truthy_the)
  then show ?thesis using r by simp
qed

text \<open>
  The run of C1 with every provider unreachable.
\<close>

theorem getAIResponse_returns_text_witness:
  "''groq'' \<in> set providers \<and>
   (\<exists>r. getAIResponse demo_keys net_down demo_time ''groq'' ''Hello there'' = Inr r \<and>
        reply r \<noteq> [])"
  using groq_configured getAIResponse_returns_text [OF groq_configured] by simp









lemma scanFallbacks_find:
  "scanFallbacks l tab =
     (case find (\<lambda>(keyword, answer). includesStr l keyword) tab of
        Some (keyword, answer) \<Rightarrow> answer | None \<Rightarrow> genericReply)"
  by (induction l tab rule: scanFallbacks.induct) auto

lemma getFallbackResponse_spec: "getFallbackResponse t msg = firstMatchReply_spec t msg"
  by (simp add: getFallbackResponse_def firstMatchReply_spec_def scanFallbacks_find)

text \<open>
  When every call an invocation made failed, the reply is the one the specification
  describes for the local responder: the reply of the first entry of the keyword table
  whose keyword is part of the lower-cased message, or the generic reply when no
  keyword is.
\<close>

lemma all_calls_failed_gives_keyword_reply:
  assumes "cur \<in> set providers"
  shows "\<exists>r. getAIResponse keys net t cur msg = Inr r \<and>
           ((\<forall>a\<in>set (attempts r). \<not> succeeded a) \<longrightarrow>
            reply r = firstMatchReply_spec t msg)"
proof -
  obtain r where r: "getAIResponse keys net t cur msg = Inr r" and
    s: "(\<not> hasCredential keys cur \<and> backupProp keys t msg cur backup r (attempts r)) \<or>
     (hasCredential keys cur \<and> (\<exists>res. truthy res \<and> attempts r = [(Preferred, cur, res)] \<and>
        active r = cur \<and> reply r = the res)) \<or>
     (hasCredential keys cur \<and> (\<exists>res fb. \<not> truthy res \<and>
        attempts r = (Preferred, cur, res) # fb \<and> backupProp keys t msg cur backup r fb))"
    using getAIResponse_shape [OF assms] by blast
  have "reply r = firstMatchReply_spec t msg" if f: "\<forall>a\<in>set (attempts r). \<not> succeeded a"
    using s
  proof (elim disjE conjE exE)
    assume "backupProp keys t msg cur backup r (attempts r)"
    then show ?thesis using f by (simp add: backupProp_def getFallbackResponse_spec)
  next
    fix res assume "truthy res" "attempts r = [(Preferred, cur, res)]"
    then show ?thesis using f by (simp add: succeeded_def result_of_def)
  next
    fix res fb
    assume "attempts r = (Preferred, cur, res) # fb" "backupProp keys t msg cur backup r fb"
    then show ?thesis using f by (simp add: backupProp_def getFallbackResponse_spec)
  qed
  then show ?thesis using r by blast
qed

text \<open>
  Claim C7: when no provider has a credential, or every call made failed, the result of
  \<open>getAIResponse\<close> is the reply of the local responder. The code does not do this when
  no provider has a credential. With no variable of the environment set, the route
  \<open>/api/status\<close> reports no provider with a key, yet \<open>HUGGINGFACE_TOKEN\<close> holds its
  placeholder text, \<open>getAIResponse\<close> calls \<open>huggingface\<close> with it, and when that call
  answers, the result is the provider's text, not the keyword reply, and
  \<open>currentActive\<close> moves to \<open>huggingface\<close>.
\<close>

theorem unconfigured_reply_is_not_keyword_reply:
  "availableAPIs (API_KEYS env_none) = [] \<and>
   getAIResponse (API_KEYS env_none) net_up demo_time initialActive ''Hello there'' =
     Inr \<lparr>reply = ''Sure.'', active = ''huggingface'',
          attempts = [(Fallback, ''huggingface'', Some ''Sure.'')]\<rparr> \<and>
   firstMatchReply_spec demo_time ''Hello there'' =
     ''Hello! I am AURA, your AI study assistant. How can I help you today?''"
  by code_simp

text \<open>
  Every call of an invocation goes to a provider that passes the guard of
  \<open>getAIResponse\<close> on \<open>API_KEYS\<close>: a provider whose key and token entries are both
  missing or empty is not called. The guard is not the test of \<open>/api/status\<close>: it
  takes the placeholder text of \<open>HUGGINGFACE_TOKEN\<close> as a credential.
\<close>

lemma calls_pass_guard:
  assumes "cur \<in> set providers"
  shows "\<exists>r. getAIResponse keys net t cur msg = Inr r \<and>
           (\<forall>a\<in>set (attempts r). hasCredential keys (api_of a))"
proof -
  obtain r where r: "getAIResponse keys net t cur msg = Inr r" and
    s: "(\<not> hasCredential keys cur \<and> backupProp keys t msg cur backup r (attempts r)) \<or>
     (hasCredential keys cur \<and> (\<exists>res. truthy res \<and> attempts r = [(Preferred, cur, res)] \<and>
        active r = cur \<and> reply r = the res)) \<or>
     (hasCredential keys cur \<and> (\<exists>res fb. \<not> truthy res \<and>
        attempts r = (Preferred, cur, res) # fb \<and> backupProp keys t msg cur backup r fb))"
    using getAIResponse_shape [OF assms] by blast
  have bp: "\<forall>a\<in>set fb. hasCredential keys (api_of a)"
    if "backupProp keys t msg cur backup r fb" for fb
  proof
    fix a assume a: "a \<in> set fb"
    from that obtain rest where "filter (hasCredential keys) backup = map api_of fb @ rest"
      by (auto simp: backupProp_def)
    then have "api_of a \<in> set (filter (hasCredential keys) backup)" using a by simp
    then show "hasCredential keys (api_of a)" by simp
  qed
  from s have "\<forall>a\<in>set (attempts r). hasCredential keys (api_of a)"
  proof (elim disjE conjE exE)
    assume "backupProp keys t msg cur backup r (attempts r)"
    then show ?thesis by (rule bp)
  next
    fix res assume "hasCredential keys cur" "attempts r = [(Preferred, cur, res)]"
    then show ?thesis by (simp add: api_of_def)
  next
    fix res fb
    assume "hasCredential keys cur" "attempts r = (Preferred, cur, res) # fb"
      "backupProp keys t msg cur backup r fb"
    then show ?thesis using bp [of fb] by (simp add: api_of_def)
  qed
  then show ?thesis using r by simp
qed

text \<open>
  Claim C8: \<open>getAIResponse\<close> calls a provider only if a credential is present for it.
  The code does not do this for \<open>huggingface\<close>. With no variable of the environment
  set, no credential is present for any provider, as the route \<open>/api/status\<close> reports,
  yet the entry \<open>HUGGINGFACE_TOKEN\<close> defaults to a placeholder text that the guard of
  \<open>getAIResponse\<close> takes as a credential, and \<open>huggingface\<close> is called.
\<close>

theorem unconfigured_huggingface_is_called:
  "env_none ''HUGGINGFACE_TOKEN'' = None \<and>
   availableAPIs (API_KEYS env_none) = [] \<and>
   calledProviders
     (getAIResponse (API_KEYS env_none) net_down demo_time initialActive ''Hello there'') =
     [''huggingface'']"
  by code_simp

section \<open>The timer registry: how a poll goes\<close>

lemma status_noActiveTimer: "status noActiveTimer = Some (JStr ''no_active_timer'')"
  by (simp add: status_def getProp_def noActiveTimer_def)

lemma handleTimerComplete_clone:
  assumes "tm u = Some t0" and "1 \<le> alarmCount t0"
  shows "\<exists>r. handleTimerComplete now tm u =
             Inr (r, tm(u \<mapsto> t0\<lparr>alarmCount := alarmCount t0 + 1, isActive := False\<rparr>)) \<and>
           status r = Some (JStr ''ai_clone_activated'') \<and>
           getProp r ''alarmCount'' = Some (JNum (alarmCount t0 + 1))"
  using assms by (simp add: handleTimerComplete_def Let_def status_def getProp_def)

lemma handleTimerComplete_session:
  assumes "tm u = Some t0" and "alarmCount t0 < 1"
  shows "\<exists>r. handleTimerComplete now tm u =
             Inr (r, tm(u \<mapsto> t0\<lparr>alarmCount := alarmCount t0 + 1, sessionNumber := 2,
                                  startTime := now\<rparr>)) \<and>
           status r = Some (JStr ''session_complete'') \<and>
           getProp r ''alarmCount'' = Some (JNum (alarmCount t0 + 1))"
  using assms by (simp add: handleTimerComplete_def Let_def status_def getProp_def)

lemma checkTimerStatus_inactive:
  "tm u = None \<or> (\<exists>t0. tm u = Some t0 \<and> \<not> isActive t0) \<Longrightarrow>
   checkTimerStatus now now2 tm u = Inr (noActiveTimer, tm)"
  by (auto simp: checkTimerStatus_def)

lemma checkTimerStatus_running:
  assumes "tm u = Some t0" and "isActive t0" and "now - startTime t0 < duration t0"
  shows "\<exists>r. checkTimerStatus now now2 tm u = Inr (r, tm) \<and> status r = Some (JStr ''active'')"
  using assms by (simp add: checkTimerStatus_def Let_def status_def getProp_def)

lemma checkTimerStatus_expired:
  assumes "tm u = Some t0" and "isActive t0" and "duration t0 \<le> now - startTime t0"
  shows "checkTimerStatus now now2 tm u = handleTimerComplete now2 tm u"
  using assms by (simp add: checkTimerStatus_def Let_def)

text \<open>The four ways a poll can go.\<close>

lemma checkTimerStatus_cases:
  assumes "checkTimerStatus now now2 tm u = Inr (r, tm')"
  shows "(tm' = tm \<and> status r = Some (JStr ''no_active_timer'') \<and>
            (tm u = None \<or> (\<exists>t0. tm u = Some t0 \<and> \<not> isActive t0))) \<or>
         (tm' = tm \<and> status r = Some (JStr ''active'') \<and>
            (\<exists>t0. tm u = Some t0 \<and> isActive t0 \<and> now - startTime t0 < duration t0)) \<or>
         (\<exists>t0. tm u = Some t0 \<and> isActive t0 \<and> duration t0 \<le> now - startTime t0 \<and>
            alarmCount t0 < 1 \<and> status r = Some (JStr ''session_complete'') \<and>
            tm' = tm(u \<mapsto> t0\<lparr>alarmCount := alarmCount t0 + 1, sessionNumber := 2,
                                 startTime := now2\<rparr>)) \<or>
         (\<exists>t0. tm u = Some t0 \<and> isActive t0 \<and> duration t0 \<le> now - startTime t0 \<and>
            1 \<le> alarmCount t0 \<and> status r = Some (JStr ''ai_clone_activated'') \<and>
            tm' = tm(u \<mapsto> t0\<lparr>alarmCount := alarmCount t0 + 1, isActive := False\<rparr>))"
proof (cases "tm u")
  case None
  then show ?thesis
    using assms checkTimerStatus_inactive [of tm u now now2] status_noActiveTimer by auto
next
  case (Some t0)
  show ?thesis
  proof (cases "isActive t0")
    case False
    then show ?thesis
      using assms Some checkTimerStatus_inactive [of tm u now now2] status_noActiveTimer by auto
  next
    case True
    show ?thesis
    proof (cases "now - startTime t0 < duration t0")
      case True
      then show ?thesis
        using assms Some \<open>isActive t0\<close> checkTimerStatus_running [of tm u t0 now now2] by auto
    next
      case False
      then have e: "handleTimerComplete now2 tm u = Inr (r, tm')"
        using assms Some \<open>isActive t0\<close> checkTimerStatus_expired [of tm u t0 now now2] by simp
      show ?thesis
      proof (cases "1 \<le> alarmCount t0")
        case True
        then show ?thesis
          using e Some \<open>isActive t0\<close> False handleTimerComplete_clone [of tm u t0 now2] by auto
      next
        case False
        then show ?thesis
          using e Some \<open>isActive t0\<close> \<open>\<not> now - startTime t0 < duration t0\<close>
            handleTimerComplete_session [of tm u t0 now2] by auto
      qed
    qed
  qed
qed

lemma checkTimerStatus_total: "\<exists>r tm'. checkTimerStatus now now2 tm u = Inr (r, tm')"
proof (cases "tm u")
  case None
  then show ?thesis by (simp add: checkTimerStatus_def)
next
  case (Some t0)
  then have "\<exists>r tm'. handleTimerComplete now2 tm u = Inr (r, tm')"
    using handleTimerComplete_clone [of tm u t0 now2] handleTimerComplete_session [of tm u t0 now2]
    by (cases "1 \<le> alarmCount t0") auto
  then show ?thesis using Some by (simp add: checkTimerStatus_def Let_def)
qed

lemma checkTimerStatus_frame:
  "checkTimerStatus now now2 tm u = Inr (r, tm') \<Longrightarrow> v \<noteq> u \<Longrightarrow> tm' v = tm v"
  using checkTimerStatus_cases [of now now2 tm u r tm'] by auto

lemma checkTimerStatus_ok:
  assumes "checkTimerStatus now now2 tm u = Inr (r, tm')" and "\<forall>v t0. tm v = Some t0 \<longrightarrow> timerOk t0"
  shows "\<forall>v t0. tm' v = Some t0 \<longrightarrow> timerOk t0"
proof (intro allI impI)
  fix v t1 assume v: "tm' v = Some t1"
  show "timerOk t1"
  proof (cases "v = u")
    case False
    then show ?thesis using checkTimerStatus_frame [OF assms(1)] v assms(2) by auto
  next
    case True
    then show ?thesis
      using checkTimerStatus_cases [OF assms(1)] v assms(2) [rule_format, of u]
      by (auto simp: timerOk_def)
  qed
qed

lemma startWorkTimer_ok:
  assumes "\<forall>v t0. tm v = Some t0 \<longrightarrow> timerOk t0"
  shows "\<forall>v t0. snd (startWorkTimer now tm u) v = Some t0 \<longrightarrow> timerOk t0"
  using assms by (auto simp: startWorkTimer_def timerOk_def Let_def)

lemma runTimerOps_ok:
  "\<forall>v t0. tm v = Some t0 \<longrightarrow> timerOk t0 \<Longrightarrow>
   \<exists>tm'. runTimerOps tm ops = Inr tm' \<and> (\<forall>v t0. tm' v = Some t0 \<longrightarrow> timerOk t0)"
proof (induction ops arbitrary: tm)
  case Nil
  then show ?case by simp
next
  case (Cons op ops)
  show ?case
  proof (cases op)
    case (Start u now)
    have "\<forall>v t0. snd (startWorkTimer now tm u) v = Some t0 \<longrightarrow> timerOk t0"
      using Cons.prems by (rule startWorkTimer_ok)
    from Cons.IH [OF this] show ?thesis using Start by simp
  next
    case (Poll u now now2)
    obtain r tm1 where c: "checkTimerStatus now now2 tm u = Inr (r, tm1)"
      using checkTimerStatus_total by blast
    then have "\<forall>v t0. tm1 v = Some t0 \<longrightarrow> timerOk t0"
      using Cons.prems by (rule checkTimerStatus_ok)
    from Cons.IH [OF this] show ?thesis using Poll c by simp
  qed
qed

lemma clone_activated_record:
  assumes "checkTimerStatus now now2 tm u = Inr (r, tm')"
    and "status r = Some (JStr ''ai_clone_activated'')"
    and "\<forall>v t0. tm v = Some t0 \<longrightarrow> timerOk t0"
  shows "\<exists>t1. tm' u = Some t1 \<and> \<not> isActive t1 \<and> alarmCount t1 = 2"
  using checkTimerStatus_cases [OF assms(1)] assms(2) assms(3) [rule_format, of u]
  by (auto simp: timerOk_def)

lemma polls_keep_inactive:
  "tm u = Some t1 \<Longrightarrow> \<not> isActive t1 \<Longrightarrow>
   \<exists>tm''. runTimerOps tm (map (\<lambda>(v, t, t'). Poll v t t') polls) = Inr tm'' \<and> tm'' u = Some t1"
proof (induction polls arbitrary: tm)
  case Nil
  then show ?case by simp
next
  case (Cons p polls)
  obtain v t t' where p: "p = (v, t, t')" by (cases p) auto
  obtain r tm1 where c: "checkTimerStatus t t' tm v = Inr (r, tm1)"
    using checkTimerStatus_total by blast
  have "tm1 u = Some t1"
  proof (cases "v = u")
    case True
    then have "checkTimerStatus t t' tm v = Inr (noActiveTimer, tm)"
      using Cons.prems checkTimerStatus_inactive by blast
    then show ?thesis using c Cons.prems by simp
  next
    case False
    then show ?thesis using checkTimerStatus_frame [OF c, of u] Cons.prems by simp
  qed
  from Cons.IH [of tm1, OF this Cons.prems(2)] show ?case using p c by simp
qed

lemma startWorkTimer_record:
  "snd (startWorkTimer now tm u) u =
     Some \<lparr>startTime = now, duration = 2400000, alarmCount = 0, isActive = True,
           mode = ''work'', sessionNumber = 1\<rparr>"
  by (simp add: startWorkTimer_def Let_def)

lemma startWorkTimer_frame: "v \<noteq> u \<Longrightarrow> snd (startWorkTimer now tm u) v = tm v"
  by (simp add: startWorkTimer_def Let_def)

lemma startWorkTimer_status:
  "status (fst (startWorkTimer now tm u)) = Some (JStr ''timer_started'')"
  by (simp add: startWorkTimer_def Let_def status_def getProp_def)

section \<open>The timer registry: claims\<close>

text \<open>
  Claim C4. For a session just started for user \<open>u\<close> at \<open>t0\<close>: a poll before 2400
  seconds have passed answers \<open>active\<close> and changes nothing; the first poll at or after
  2400 seconds answers \<open>session_complete\<close> with count 1 and sets the start instant to
  the current clock reading; a poll a full period after that answers
  \<open>ai_clone_activated\<close> with count 2 and leaves the session inactive.
\<close>

theorem two_expired_polls_activate_clone:
  assumes "tm0 = snd (startWorkTimer t0 tm u)"
  shows "(\<forall>t t'. t - t0 < 2400000 \<longrightarrow>
            (\<exists>r. checkTimerStatus t t' tm0 u = Inr (r, tm0) \<and> status r = Some (JStr ''active''))) \<and>
         (\<forall>t1 t1'. 2400000 \<le> t1 - t0 \<longrightarrow>
            (\<exists>r1 tm1 s1. checkTimerStatus t1 t1' tm0 u = Inr (r1, tm1) \<and>
               status r1 = Some (JStr ''session_complete'') \<and>
               getProp r1 ''alarmCount'' = Some (JNum 1) \<and>
               tm1 u = Some s1 \<and> alarmCount s1 = 1 \<and> startTime s1 = t1' \<and> isActive s1 \<and>
               (\<forall>t2 t2'. 2400000 \<le> t2 - t1' \<longrightarrow>
                  (\<exists>r2 tm2 s2. checkTimerStatus t2 t2' tm1 u = Inr (r2, tm2) \<and>
                     status r2 = Some (JStr ''ai_clone_activated'') \<and>
                     getProp r2 ''alarmCount'' = Some (JNum 2) \<and>
                     tm2 u = Some s2 \<and> alarmCount s2 = 2 \<and> \<not> isActive s2))))"
proof (intro conjI allI impI)
  define s0 where "s0 = \<lparr>startTime = t0, duration = 2400000, alarmCount = 0, isActive = True,
           mode = ''work'', sessionNumber = 1\<rparr>"
  have s0: "tm0 u = Some s0" using assms startWorkTimer_record by (simp add: s0_def)
  {
    fix t t' :: int assume "t - t0 < 2400000"
    then show "\<exists>r. checkTimerStatus t t' tm0 u = Inr (r, tm0) \<and> status r = Some (JStr ''active'')"
      using s0 checkTimerStatus_running [of tm0 u s0 t t'] by (simp add: s0_def)
  }
  {
    fix t1 t1' :: int assume e1: "2400000 \<le> t1 - t0"
    define s1 where "s1 = s0\<lparr>alarmCount := alarmCount s0 + 1, sessionNumber := 2, startTime := t1'\<rparr>"
    define tm1 where "tm1 = tm0(u \<mapsto> s1)"
    have c1: "checkTimerStatus t1 t1' tm0 u = handleTimerComplete t1' tm0 u"
      using s0 checkTimerStatus_expired [of tm0 u s0 t1 t1'] e1 by (simp add: s0_def)
    obtain r1 where r1: "handleTimerComplete t1' tm0 u = Inr (r1, tm1)"
      "status r1 = Some (JStr ''session_complete'')"
      "getProp r1 ''alarmCount'' = Some (JNum (alarmCount s0 + 1))"
      using s0 handleTimerComplete_session [of tm0 u s0 t1'] by (auto simp: s0_def tm1_def s1_def)
    have s1: "tm1 u = Some s1" by (simp add: tm1_def)
    have second: "\<exists>r2 tm2 s2. checkTimerStatus t2 t2' tm1 u = Inr (r2, tm2) \<and>
                     status r2 = Some (JStr ''ai_clone_activated'') \<and>
                     getProp r2 ''alarmCount'' = Some (JNum 2) \<and>
                     tm2 u = Some s2 \<and> alarmCount s2 = 2 \<and> \<not> isActive s2"
      if e2: "2400000 \<le> t2 - t1'" for t2 t2' :: int
    proof -
      have c2: "checkTimerStatus t2 t2' tm1 u = handleTimerComplete t2' tm1 u"
        using s1 checkTimerStatus_expired [of tm1 u s1 t2 t2'] e2 by (simp add: s1_def s0_def)
      obtain r2 where r2: "handleTimerComplete t2' tm1 u =
          Inr (r2, tm1(u \<mapsto> s1\<lparr>alarmCount := alarmCount s1 + 1, isActive := False\<rparr>))"
        "status r2 = Some (JStr ''ai_clone_activated'')"
        "getProp r2 ''alarmCount'' = Some (JNum (alarmCount s1 + 1))"
        using s1 handleTimerComplete_clone [of tm1 u s1 t2'] by (auto simp: s1_def s0_def)
      show ?thesis
        apply (rule exI [of _ r2])
        apply (rule exI [of _ "tm1(u \<mapsto> s1\<lparr>alarmCount := alarmCount s1 + 1, isActive := False\<rparr>)"])
        apply (rule exI [of _ "s1\<lparr>alarmCount := alarmCount s1 + 1, isActive := False\<rparr>"])
        using c2 r2 by (simp add: s1_def s0_def)
    qed
    show "\<exists>r1 tm1 s1. checkTimerStatus t1 t1' tm0 u = Inr (r1, tm1) \<and>
               status r1 = Some (JStr ''session_complete'') \<and>
               getProp r1 ''alarmCount'' = Some (JNum 1) \<and>
               tm1 u = Some s1 \<and> alarmCount s1 = 1 \<and> startTime s1 = t1' \<and> isActive s1 \<and>
               (\<forall>t2 t2'. 2400000 \<le> t2 - t1' \<longrightarrow>
                  (\<exists>r2 tm2 s2. checkTimerStatus t2 t2' tm1 u = Inr (r2, tm2) \<and>
                     status r2 = Some (JStr ''ai_clone_activated'') \<and>
                     getProp r2 ''alarmCount'' = Some (JNum 2) \<and>
                     tm2 u = Some s2 \<and> alarmCount s2 = 2 \<and> \<not> isActive s2))"
      apply (rule exI [of _ r1])
      apply (rule exI [of _ tm1])
      apply (rule exI [of _ s1])
      using c1 r1 s1 second by (simp add: s1_def s0_def)
  }
qed

text \<open>
  The run of C4 with polls at 1 second, 2400 seconds and 4800.005 seconds.
\<close>

theorem two_expired_polls_activate_clone_witness:
  "(1000::int) - 0 < 2400000 \<and> (2400000::int) \<le> 2400000 - 0 \<and> (2400000::int) \<le> 4800005 - 2400005 \<and>
   (\<exists>r. checkTimerStatus 1000 1001 (snd (startWorkTimer 0 noTimers ''alice'')) ''alice'' =
          Inr (r, snd (startWorkTimer 0 noTimers ''alice'')) \<and> status r = Some (JStr ''active'')) \<and>
   (\<exists>r1 tm1 s1 r2 tm2 s2.
      checkTimerStatus 2400000 2400005 (snd (startWorkTimer 0 noTimers ''alice'')) ''alice'' = Inr (r1, tm1) \<and>
      status r1 = Some (JStr ''session_complete'') \<and> getProp r1 ''alarmCount'' = Some (JNum 1) \<and>
      tm1 ''alice'' = Some s1 \<and> startTime s1 = 2400005 \<and>
      checkTimerStatus 4800005 4800006 tm1 ''alice'' = Inr (r2, tm2) \<and>
      status r2 = Some (JStr ''ai_clone_activated'') \<and> getProp r2 ''alarmCount'' = Some (JNum 2) \<and>
      tm2 ''alice'' = Some s2 \<and> alarmCount s2 = 2 \<and> \<not> isActive s2)"
proof -
  note T = two_expired_polls_activate_clone [OF refl, of 0 noTimers "''alice''"]
  have e: "(1000::int) - 0 < 2400000" "(2400000::int) \<le> 2400000 - 0"
    "(2400000::int) \<le> 4800005 - 2400005" by simp_all
  from T have early: "\<exists>r. checkTimerStatus 1000 1001 (snd (startWorkTimer 0 noTimers ''alice'')) ''alice'' =
          Inr (r, snd (startWorkTimer 0 noTimers ''alice'')) \<and> status r = Some (JStr ''active'')"
    using e(1) by blast
  from T e(2) obtain r1 tm1 s1 where 1:
    "checkTimerStatus 2400000 2400005 (snd (startWorkTimer 0 noTimers ''alice'')) ''alice'' = Inr (r1, tm1)"
    "status r1 = Some (JStr ''session_complete'')" "getProp r1 ''alarmCount'' = Some (JNum 1)"
    "tm1 ''alice'' = Some s1" "startTime s1 = 2400005"
    and nxt: "\<forall>t2 t2'. 2400000 \<le> t2 - 2400005 \<longrightarrow>
        (\<exists>r2 tm2 s2. checkTimerStatus t2 t2' tm1 ''alice'' = Inr (r2, tm2) \<and>
           status r2 = Some (JStr ''ai_clone_activated'') \<and>
           getProp r2 ''alarmCount'' = Some (JNum 2) \<and>
           tm2 ''alice'' = Some s2 \<and> alarmCount s2 = 2 \<and> \<not> isActive s2)"
    by blast
  from nxt e(3) obtain r2 tm2 s2 where 2:
    "checkTimerStatus 4800005 4800006 tm1 ''alice'' = Inr (r2, tm2)"
    "status r2 = Some (JStr ''ai_clone_activated'')" "getProp r2 ''alarmCount'' = Some (JNum 2)"
    "tm2 ''alice'' = Some s2" "alarmCount s2 = 2" "\<not> isActive s2"
    by blast
  have "\<exists>r1 tm1 s1 r2 tm2 s2.
      checkTimerStatus 2400000 2400005 (snd (startWorkTimer 0 noTimers ''alice'')) ''alice'' = Inr (r1, tm1) \<and>
      status r1 = Some (JStr ''session_complete'') \<and> getProp r1 ''alarmCount'' = Some (JNum 1) \<and>
      tm1 ''alice'' = Some s1 \<and> startTime s1 = 2400005 \<and>
      checkTimerStatus 4800005 4800006 tm1 ''alice'' = Inr (r2, tm2) \<and>
      status r2 = Some (JStr ''ai_clone_activated'') \<and> getProp r2 ''alarmCount'' = Some (JNum 2) \<and>
      tm2 ''alice'' = Some s2 \<and> alarmCount s2 = 2 \<and> \<not> isActive s2"
    using 1 2
    by (intro exI [of _ r1] exI [of _ tm1] exI [of _ s1] exI [of _ r2] exI [of _ tm2]
          exI [of _ s2] conjI)
  then show ?thesis using e early by (intro conjI)
qed

text \<open>
  Claim C5, amended. \<open>startWorkTimer\<close> for user \<open>u\<close> always stores a fresh record for
  \<open>u\<close>, started at the current clock reading with count 0 and active, whatever record
  \<open>u\<close> had; the records of other users are untouched and the answer is
  \<open>timer_started\<close>.
\<close>

theorem startWorkTimer_always_restarts:
  "snd (startWorkTimer now tm u) u =
     Some \<lparr>startTime = now, duration = 2400000, alarmCount = 0, isActive = True,
           mode = ''work'', sessionNumber = 1\<rparr> \<and>
   (\<forall>v. v \<noteq> u \<longrightarrow> snd (startWorkTimer now tm u) v = tm v) \<and>
   status (fst (startWorkTimer now tm u)) = Some (JStr ''timer_started'')"
  using startWorkTimer_record startWorkTimer_frame startWorkTimer_status by simp

text \<open>
  The run of C5 (amended) with a second start one second after the first.
\<close>

theorem startWorkTimer_always_restarts_witness:
  "''bob'' \<noteq> ''alice'' \<and>
   snd (startWorkTimer 1000 (snd (startWorkTimer 0 noTimers ''alice'')) ''alice'') ''bob'' =
     snd (startWorkTimer 0 noTimers ''alice'') ''bob'' \<and>
   snd (startWorkTimer 1000 (snd (startWorkTimer 0 noTimers ''alice'')) ''alice'') ''alice'' =
     Some \<lparr>startTime = 1000, duration = 2400000, alarmCount = 0, isActive = True,
           mode = ''work'', sessionNumber = 1\<rparr>"
  using startWorkTimer_always_restarts [of 1000 "snd (startWorkTimer 0 noTimers ''alice'')" "''alice''"]
  by simp

text \<open>
  Claim C5 as stated fails: with the session of \<open>alice\<close> started at 0 and active, one
  second into its window, a second start moves the start instant from 0 to 1000.
\<close>

theorem second_start_resets_counterexample:
  "map_option startTime (snd (startWorkTimer 0 noTimers ''alice'') ''alice'') = Some 0 \<and>
   map_option isActive (snd (startWorkTimer 0 noTimers ''alice'') ''alice'') = Some True \<and>
   (1000::int) - 0 < 2400000 \<and>
   map_option startTime
     (snd (startWorkTimer 1000 (snd (startWorkTimer 0 noTimers ''alice'')) ''alice'') ''alice'') =
     Some 1000"
  by (simp add: startWorkTimer_record)

text \<open>
  Claim C9. For a user with no record, or with a record that is not active,
  \<open>checkTimerStatus\<close> answers \<open>no_active_timer\<close> with a suggestion text and returns the
  registry as it was.
\<close>

theorem poll_without_active_timer:
  assumes "tm u = None \<or> (\<exists>t0. tm u = Some t0 \<and> \<not> isActive t0)"
  shows "\<exists>r s. checkTimerStatus now now2 tm u = Inr (r, tm) \<and>
           status r = Some (JStr ''no_active_timer'') \<and>
           getProp r ''suggestion'' = Some (JStr s) \<and> s \<noteq> []"
proof -
  have "checkTimerStatus now now2 tm u = Inr (noActiveTimer, tm)"
    using assms by (rule checkTimerStatus_inactive)
  moreover have "\<exists>s. getProp noActiveTimer ''suggestion'' = Some (JStr s) \<and> s \<noteq> []"
    by (simp add: getProp_def noActiveTimer_def)
  ultimately show ?thesis using status_noActiveTimer by auto
qed

text \<open>
  Two runs of C9: a user without a record, and a user whose record is not active.
\<close>

theorem poll_without_active_timer_witness:
  "noTimers ''alice'' = None \<and>
   (\<exists>r s. checkTimerStatus 5 6 noTimers ''alice'' = Inr (r, noTimers) \<and>
      status r = Some (JStr ''no_active_timer'') \<and>
      getProp r ''suggestion'' = Some (JStr s) \<and> s \<noteq> []) \<and>
   (noTimers(''bob'' \<mapsto> finished_timer)) ''bob'' = Some finished_timer \<and> \<not> isActive finished_timer \<and>
   (\<exists>r s. checkTimerStatus 5 6 (noTimers(''bob'' \<mapsto> finished_timer)) ''bob'' =
        Inr (r, noTimers(''bob'' \<mapsto> finished_timer)) \<and>
      status r = Some (JStr ''no_active_timer'') \<and>
      getProp r ''suggestion'' = Some (JStr s) \<and> s \<noteq> [])"
proof -
  have a: "noTimers ''alice'' = None" by (simp add: noTimers_def)
  have b: "(noTimers(''bob'' \<mapsto> finished_timer)) ''bob'' = Some finished_timer"
    "\<not> isActive finished_timer" by (simp_all add: finished_timer_def)
  have h1: "noTimers ''alice'' = None \<or> (\<exists>t0. noTimers ''alice'' = Some t0 \<and> \<not> isActive t0)"
    using a by (rule disjI1)
  have h2: "(noTimers(''bob'' \<mapsto> finished_timer)) ''bob'' = None \<or>
     (\<exists>t0. (noTimers(''bob'' \<mapsto> finished_timer)) ''bob'' = Some t0 \<and> \<not> isActive t0)"
    using b by (intro disjI2 exI [of _ finished_timer] conjI)
  show ?thesis
    using a b poll_without_active_timer [of noTimers "''alice''" 5 6, OF h1]
      poll_without_active_timer [of "noTimers(''bob'' \<mapsto> finished_timer)" "''bob''" 5 6, OF h2]
    by (intro conjI)
qed

text \<open>
  Claim C10. After any sequence of \<open>startWorkTimer\<close> and \<open>checkTimerStatus\<close> calls from
  the empty registry, every record has a count of 0, 1 or 2, and a count of 2 only when
  it is not active. Hence after a poll that answers \<open>ai_clone_activated\<close> for a user,
  no sequence of further polls changes that user's record: its count stays 2.
\<close>

theorem alarmCount_bounded:
  "\<exists>tm. runTimerOps noTimers ops = Inr tm \<and>
     (\<forall>u t0. tm u = Some t0 \<longrightarrow>
        alarmCount t0 \<in> {0, 1, 2} \<and> (alarmCount t0 = 2 \<longrightarrow> \<not> isActive t0)) \<and>
     (\<forall>u now now2 r tm'.
        checkTimerStatus now now2 tm u = Inr (r, tm') \<and>
        status r = Some (JStr ''ai_clone_activated'') \<longrightarrow>
        (\<forall>polls. \<exists>tm''.
           runTimerOps tm' (map (\<lambda>(v, t, t'). Poll v t t') polls) = Inr tm'' \<and>
           tm'' u = tm' u \<and> map_option alarmCount (tm'' u) = Some 2))"
proof -
  have "\<forall>v t0. noTimers v = Some t0 \<longrightarrow> timerOk t0" by (simp add: noTimers_def)
  then obtain tm where tm: "runTimerOps noTimers ops = Inr tm"
    and ok: "\<forall>v t0. tm v = Some t0 \<longrightarrow> timerOk t0"
    using runTimerOps_ok by blast
  have inv: "\<forall>u t0. tm u = Some t0 \<longrightarrow>
        alarmCount t0 \<in> {0, 1, 2} \<and> (alarmCount t0 = 2 \<longrightarrow> \<not> isActive t0)"
  proof (intro allI impI)
    fix u t0 assume "tm u = Some t0"
    then have "timerOk t0" using ok by blast
    then show "alarmCount t0 \<in> {0, 1, 2} \<and> (alarmCount t0 = 2 \<longrightarrow> \<not> isActive t0)"
      by (auto simp: timerOk_def)
  qed
  have after: "\<exists>tm''. runTimerOps tm' (map (\<lambda>(v, t, t'). Poll v t t') polls) = Inr tm'' \<and>
           tm'' u = tm' u \<and> map_option alarmCount (tm'' u) = Some 2"
    if h: "checkTimerStatus now now2 tm u = Inr (r, tm')"
      "status r = Some (JStr ''ai_clone_activated'')"
    for u now now2 r tm' polls
  proof -
    obtain t1 where t1: "tm' u = Some t1" "\<not> isActive t1" "alarmCount t1 = 2"
      using clone_activated_record [OF h ok] by blast
    obtain tm'' where "runTimerOps tm' (map (\<lambda>(v, t, t'). Poll v t t') polls) = Inr tm''"
      "tm'' u = Some t1"
      using polls_keep_inactive [of tm' u t1 polls] t1 by blast
    then show ?thesis using t1 by simp
  qed
  show ?thesis
    apply (rule exI [of _ tm])
    using tm inv after by blast
qed

lemma demo_ops:
  "\<exists>tm. runTimerOps noTimers [Start ''alice'' 0, Poll ''alice'' 2400000 2400000] = Inr tm \<and>
     tm ''alice'' = Some \<lparr>startTime = 2400000, duration = 2400000, alarmCount = 1,
                          isActive = True, mode = ''work'', sessionNumber = 2\<rparr>"
  by (simp add: startWorkTimer_def checkTimerStatus_def handleTimerComplete_def Let_def)

text \<open>
  The run of C10: a start, a first completing poll, the poll that activates the clone,
  and one more poll.
\<close>

theorem alarmCount_bounded_witness:
  "\<exists>tm t0 r tm' tm''.
     runTimerOps noTimers [Start ''alice'' 0, Poll ''alice'' 2400000 2400000] = Inr tm \<and>
     tm ''alice'' = Some t0 \<and> alarmCount t0 = 1 \<and> alarmCount t0 \<in> {0, 1, 2} \<and>
     checkTimerStatus 4800000 4800000 tm ''alice'' = Inr (r, tm') \<and>
     status r = Some (JStr ''ai_clone_activated'') \<and>
     runTimerOps tm' (map (\<lambda>(v, t, t'). Poll v t t') [(''alice'', 9999999, 9999999)]) = Inr tm'' \<and>
     map_option alarmCount (tm'' ''alice'') = Some 2"
proof -
  define ops where "ops = [Start ''alice'' 0, Poll ''alice'' 2400000 2400000]"
  define t1 where "t1 = \<lparr>startTime = 2400000, duration = 2400000, alarmCount = 1,
                          isActive = True, mode = ''work'', sessionNumber = 2\<rparr>"
  obtain tm where tm: "runTimerOps noTimers ops = Inr tm"
    and inv: "\<forall>u t0. tm u = Some t0 \<longrightarrow>
        alarmCount t0 \<in> {0, 1, 2} \<and> (alarmCount t0 = 2 \<longrightarrow> \<not> isActive t0)"
    and after: "\<forall>u now now2 r tm'.
        checkTimerStatus now now2 tm u = Inr (r, tm') \<and>
        status r = Some (JStr ''ai_clone_activated'') \<longrightarrow>
        (\<forall>polls. \<exists>tm''.
           runTimerOps tm' (map (\<lambda>(v, t, t'). Poll v t t') polls) = Inr tm'' \<and>
           tm'' u = tm' u \<and> map_option alarmCount (tm'' u) = Some 2)"
    using alarmCount_bounded [of ops] by (elim exE conjE) (rule that; assumption)
  have t: "tm ''alice'' = Some t1" using demo_ops tm by (auto simp: ops_def t1_def)
  have "checkTimerStatus 4800000 4800000 tm ''alice'' = handleTimerComplete 4800000 tm ''alice''"
    using t checkTimerStatus_expired [of tm "''alice''" t1 4800000 4800000] by (simp add: t1_def)
  moreover obtain r tm' where "handleTimerComplete 4800000 tm ''alice'' = Inr (r, tm')"
    "status r = Some (JStr ''ai_clone_activated'')"
    using t handleTimerComplete_clone [of tm "''alice''" t1 4800000] by (auto simp: t1_def)
  ultimately have c: "checkTimerStatus 4800000 4800000 tm ''alice'' = Inr (r, tm')"
    "status r = Some (JStr ''ai_clone_activated'')" by simp_all
  from after c obtain tm'' where
    "runTimerOps tm' (map (\<lambda>(v, t, t'). Poll v t t') [(''alice'', 9999999, 9999999)]) = Inr tm''"
    "map_option alarmCount (tm'' ''alice'') = Some 2"
    by blast
  moreover have "alarmCount t1 = 1" "alarmCount t1 \<in> {0, 1, 2}" by (simp_all add: t1_def)
  ultimately show ?thesis
    using tm t c unfolding ops_def
    by (intro exI [of _ tm] exI [of _ t1] exI [of _ r] exI [of _ tm'] exI [of _ tm''] conjI)
qed

section \<open>The command router\<close>

lemma status_withVoice: "status r = Some v \<Longrightarrow> status (withVoice r ty) = Some v"
  by (simp add: status_def getProp_def withVoice_def)

lemma statusIn_withVoice: "statusIn r tags \<Longrightarrow> statusIn (withVoice r ty) tags"
  by (auto simp: statusIn_def status_withVoice split: option.splits jsval.splits)

lemma statusIn_I: "status r = Some (JStr tag) \<Longrightarrow> tag \<in> set tags \<Longrightarrow> statusIn r tags"
  by (simp add: statusIn_def)

lemma status_activateSafeMode: "status (activateSafeMode d) = Some (JStr ''safe_mode_active'')"
  by (simp add: activateSafeMode_def status_def getProp_def)

lemma status_activateAIClone:
  "status (activateAIClone ''standard'') = Some (JStr ''clone_activated'')"
  "status (activateAIClone ''advanced'') = Some (JStr ''advanced_clone_active'')"
  by (simp_all add: activateAIClone_def cloneCapabilities_def status_def getProp_def)

lemma checkTimerStatus_statusIn:
  "\<exists>r tm'. checkTimerStatus now now2 tm u = Inr (r, tm') \<and>
     statusIn r [''no_active_timer'', ''active'', ''session_complete'', ''ai_clone_activated'']"
proof -
  obtain r tm' where c: "checkTimerStatus now now2 tm u = Inr (r, tm')"
    using checkTimerStatus_total by blast
  from checkTimerStatus_cases [OF c]
  have "statusIn r [''no_active_timer'', ''active'', ''session_complete'', ''ai_clone_activated'']"
    by (auto simp: statusIn_def)
  then show ?thesis using c by blast
qed

text \<open>The six tests of the router, in its order.\<close>

lemma matches_simps:
  "matches c SessionStart \<longleftrightarrow> includesStr (toLowerCase c) ''start work'' \<or>
     includesStr (toLowerCase c) ''40 minute'' \<or> includesStr (toLowerCase c) ''begin session''"
  "matches c TimerStatus \<longleftrightarrow> includesStr (toLowerCase c) ''timer status'' \<or>
     includesStr (toLowerCase c) ''time left'' \<or> includesStr (toLowerCase c) ''how much time''"
  "matches c SafeMode \<longleftrightarrow> includesStr (toLowerCase c) ''stressed'' \<or>
     includesStr (toLowerCase c) ''anxious'' \<or> includesStr (toLowerCase c) ''overwhelmed'' \<or>
     includesStr (toLowerCase c) ''safe mode''"
  "matches c Clone \<longleftrightarrow> includesStr (toLowerCase c) ''clone'' \<or>
     includesStr (toLowerCase c) ''background tasks'' \<or> includesStr (toLowerCase c) ''auto work''"
  "matches c ScanIntent \<longleftrightarrow> includesStr (toLowerCase c) ''scan'' \<or>
     includesStr (toLowerCase c) ''read document'' \<or> includesStr (toLowerCase c) ''analyze''"
  "matches c ModeSwitch \<longleftrightarrow> includesStr (toLowerCase c) ''multi mode''"
  by (simp_all add: matches_def triggerKeywords_def)

lemma firstTrigger_spec_matches:
  "firstTrigger_spec c =
     (if matches c SessionStart then Some SessionStart
      else if matches c TimerStatus then Some TimerStatus
      else if matches c SafeMode then Some SafeMode
      else if matches c Clone then Some Clone
      else if matches c ScanIntent then Some ScanIntent
      else if matches c ModeSwitch then Some ModeSwitch
      else None)"
  by (simp add: firstTrigger_spec_def triggerKeywords_def matches_simps)

lemma route_SessionStart:
  assumes "matches c SessionStart"
  shows "\<exists>r tm'. handleSpecialCommands now now2 d tm c u = Inr (Some r, tm') \<and>
           statusIn r (triggerStatuses SessionStart)"
proof -
  obtain r0 tm' where s: "startWorkTimer now tm u = (r0, tm')" by (cases "startWorkTimer now tm u")
  then have "status r0 = Some (JStr ''timer_started'')"
    using startWorkTimer_status [of now tm u] by simp
  then have "statusIn (withVoice r0 ''timer'') (triggerStatuses SessionStart)"
    by (intro statusIn_withVoice) (simp add: statusIn_def)
  moreover have "handleSpecialCommands now now2 d tm c u = Inr (Some (withVoice r0 ''timer''), tm')"
    using assms s unfolding handleSpecialCommands_def Let_def matches_simps by simp
  ultimately show ?thesis by blast
qed

lemma route_TimerStatus:
  assumes "\<not> matches c SessionStart" "matches c TimerStatus"
  shows "\<exists>r tm'. handleSpecialCommands now now2 d tm c u = Inr (Some r, tm') \<and>
           statusIn r (triggerStatuses TimerStatus)"
proof -
  obtain r0 tm' where s: "checkTimerStatus now now2 tm u = Inr (r0, tm')"
    "statusIn r0 [''no_active_timer'', ''active'', ''session_complete'', ''ai_clone_activated'']"
    using checkTimerStatus_statusIn by blast
  then have "statusIn (withVoice r0 ''timer'') (triggerStatuses TimerStatus)"
    by (intro statusIn_withVoice) simp
  moreover have "handleSpecialCommands now now2 d tm c u = Inr (Some (withVoice r0 ''timer''), tm')"
    using assms s(1) unfolding handleSpecialCommands_def Let_def matches_simps by simp
  ultimately show ?thesis by blast
qed

lemma route_SafeMode:
  assumes "\<not> matches c SessionStart" "\<not> matches c TimerStatus" "matches c SafeMode"
  shows "handleSpecialCommands now now2 d tm c u =
           Inr (Some (withVoice (activateSafeMode d) ''stress''), tm)"
  using assms unfolding handleSpecialCommands_def Let_def matches_simps by simp

lemma route_Clone:
  assumes "\<not> matches c SessionStart" "\<not> matches c TimerStatus" "\<not> matches c SafeMode"
    "matches c Clone"
  shows "\<exists>m \<in> {''standard'', ''advanced''}. handleSpecialCommands now now2 d tm c u =
           Inr (Some (withVoice (activateAIClone m) ''conversation''), tm)"
  using assms unfolding handleSpecialCommands_def Let_def matches_simps by simp

lemma route_ScanIntent:
  assumes "\<not> matches c SessionStart" "\<not> matches c TimerStatus" "\<not> matches c SafeMode"
    "\<not> matches c Clone" "matches c ScanIntent"
  shows "\<exists>r. handleSpecialCommands now now2 d tm c u = Inr (Some r, tm) \<and>
           status r = Some (JStr ''scan_mode_ready'')"
  using assms unfolding handleSpecialCommands_def Let_def matches_simps
  by (simp add: status_def getProp_def)

lemma route_ModeSwitch:
  assumes "\<not> matches c SessionStart" "\<not> matches c TimerStatus" "\<not> matches c SafeMode"
    "\<not> matches c Clone" "\<not> matches c ScanIntent" "matches c ModeSwitch"
  shows "\<exists>r. handleSpecialCommands now now2 d tm c u = Inr (Some r, tm) \<and>
           status r = Some (JStr ''multi_mode_active'')"
  using assms unfolding handleSpecialCommands_def Let_def matches_simps
  by (simp add: status_def getProp_def withVoice_def)

lemma route_none:
  assumes "\<not> matches c SessionStart" "\<not> matches c TimerStatus" "\<not> matches c SafeMode"
    "\<not> matches c Clone" "\<not> matches c ScanIntent" "\<not> matches c ModeSwitch"
  shows "handleSpecialCommands now now2 d tm c u = Inr (None, tm)"
  using assms unfolding handleSpecialCommands_def Let_def matches_simps by simp

lemma stressed_matches:
  "\<not> matches ''I am stressed and overwhelmed'' SessionStart"
  "\<not> matches ''I am stressed and overwhelmed'' TimerStatus"
  "matches ''I am stressed and overwhelmed'' SafeMode"
  by code_simp+

lemma getAIResponse_total:
  "cur \<in> set providers \<Longrightarrow> \<exists>r. getAIResponse keys net t cur msg = Inr r"
  using getAIResponse_shape [of cur keys net t msg] by blast

text \<open>
  Claim C6. \<open>handleSpecialCommands\<close> answers with the handler of the first trigger set,
  in the order session start, timer status, safe mode, clone, scan intent, mode switch,
  that has a keyword in the lower-cased command; with no such set it answers \<open>null\<close>,
  leaves the registry as it was, and the route hands the command to \<open>getAIResponse\<close>.
  For every registry, the command \<open>I am stressed and overwhelmed\<close> is answered with
  \<open>safe_mode_active\<close>.
\<close>

theorem router_first_match_wins:
  "(case firstTrigger_spec command of
      None \<Rightarrow> handleSpecialCommands now now2 d tm command u = Inr (None, tm)
    | Some tg \<Rightarrow>
        (\<exists>r tm'. handleSpecialCommands now now2 d tm command u = Inr (Some r, tm') \<and>
                 statusIn r (triggerStatuses tg))) \<and>
   (firstTrigger_spec command = None \<and> currentActive srv \<in> set providers \<longrightarrow>
      (\<exists>a body. getAIResponse keys (network env) (timeString env) (currentActive srv) command = Inr a \<and>
         auraProcess keys env srv command uo = Inr (body, srv\<lparr>currentActive := active a\<rparr>) \<and>
         getProp body ''response'' = Some (JStr (reply a)) \<and>
         getProp body ''commandType'' = Some (JStr ''ai_conversation''))) \<and>
   (\<exists>r. handleSpecialCommands now now2 d tm ''I am stressed and overwhelmed'' u = Inr (Some r, tm) \<and>
        status r = Some (JStr ''safe_mode_active''))"
proof (intro conjI impI)
  show "case firstTrigger_spec command of
      None \<Rightarrow> handleSpecialCommands now now2 d tm command u = Inr (None, tm)
    | Some tg \<Rightarrow>
        (\<exists>r tm'. handleSpecialCommands now now2 d tm command u = Inr (Some r, tm') \<and>
                 statusIn r (triggerStatuses tg))"
  proof -
    consider (1) "matches command SessionStart"
      | (2) "\<not> matches command SessionStart" "matches command TimerStatus"
      | (3) "\<not> matches command SessionStart" "\<not> matches command TimerStatus"
            "matches command SafeMode"
      | (4) "\<not> matches command SessionStart" "\<not> matches command TimerStatus"
            "\<not> matches command SafeMode" "matches command Clone"
      | (5) "\<not> matches command SessionStart" "\<not> matches command TimerStatus"
            "\<not> matches command SafeMode" "\<not> matches command Clone" "matches command ScanIntent"
      | (6) "\<not> matches command SessionStart" "\<not> matches command TimerStatus"
            "\<not> matches command SafeMode" "\<not> matches command Clone"
            "\<not> matches command ScanIntent" "matches command ModeSwitch"
      | (7) "\<not> matches command SessionStart" "\<not> matches command TimerStatus"
            "\<not> matches command SafeMode" "\<not> matches command Clone"
            "\<not> matches command ScanIntent" "\<not> matches command ModeSwitch"
      by blast
    then show ?thesis
    proof cases
      case 1
      then show ?thesis
        using route_SessionStart [of command now now2 d tm u]
        by (simp add: firstTrigger_spec_matches)
    next
      case 2
      then show ?thesis
        using route_TimerStatus [of command now now2 d tm u]
        by (simp add: firstTrigger_spec_matches)
    next
      case 3
      have "statusIn (withVoice (activateSafeMode d) ''stress'') (triggerStatuses SafeMode)"
        by (intro statusIn_withVoice statusIn_I [OF status_activateSafeMode]) simp
      then show ?thesis
        using 3 route_SafeMode [of command now now2 d tm u]
        by (simp add: firstTrigger_spec_matches)
    next
      case 4
      then obtain m where m: "m \<in> {''standard'', ''advanced''}"
        "handleSpecialCommands now now2 d tm command u =
           Inr (Some (withVoice (activateAIClone m) ''conversation''), tm)"
        using route_Clone [of command now now2 d tm u] by blast
      have "statusIn (activateAIClone m) (triggerStatuses Clone)"
        using m(1) status_activateAIClone by (auto simp: statusIn_def)
      then have "statusIn (withVoice (activateAIClone m) ''conversation'') (triggerStatuses Clone)"
        by (rule statusIn_withVoice)
      then show ?thesis using 4 m(2) by (simp add: firstTrigger_spec_matches)
    next
      case 5
      then obtain r where "handleSpecialCommands now now2 d tm command u = Inr (Some r, tm)"
        "status r = Some (JStr ''scan_mode_ready'')"
        using route_ScanIntent [of command now now2 d tm u] by blast
      then show ?thesis using 5 by (simp add: firstTrigger_spec_matches statusIn_def)
    next
      case 6
      then obtain r where "handleSpecialCommands now now2 d tm command u = Inr (Some r, tm)"
        "status r = Some (JStr ''multi_mode_active'')"
        using route_ModeSwitch [of command now now2 d tm u] by blast
      then show ?thesis using 6 by (simp add: firstTrigger_spec_matches statusIn_def)
    next
      case 7
      then show ?thesis
        using route_none [of command now now2 d tm u]
        by (simp add: firstTrigger_spec_matches)
    qed
  qed
next
  assume a: "firstTrigger_spec command = None \<and> currentActive srv \<in> set providers"
  then have n: "\<not> matches command SessionStart" "\<not> matches command TimerStatus"
    "\<not> matches command SafeMode" "\<not> matches command Clone"
    "\<not> matches command ScanIntent" "\<not> matches command ModeSwitch"
    by (auto simp: firstTrigger_spec_matches split: if_splits)
  have h: "handleSpecialCommands (clock env) (clock2 env) (draw env) (activeTimers srv) command
             (case uo of None \<Rightarrow> ''default'' | Some u \<Rightarrow> u) = Inr (None, activeTimers srv)"
    using n by (rule route_none)
  obtain r where r: "getAIResponse keys (network env) (timeString env) (currentActive srv) command = Inr r"
    using a getAIResponse_total by blast
  show "\<exists>a body. getAIResponse keys (network env) (timeString env) (currentActive srv) command = Inr a \<and>
         auraProcess keys env srv command uo = Inr (body, srv\<lparr>currentActive := active a\<rparr>) \<and>
         getProp body ''response'' = Some (JStr (reply a)) \<and>
         getProp body ''commandType'' = Some (JStr ''ai_conversation'')"
    apply (rule exI [of _ r])
    using r h by (simp add: auraProcess_def Let_def getProp_def)
next
  have "handleSpecialCommands now now2 d tm ''I am stressed and overwhelmed'' u =
          Inr (Some (withVoice (activateSafeMode d) ''stress''), tm)"
    using stressed_matches by (rule route_SafeMode)
  moreover have "status (withVoice (activateSafeMode d) ''stress'') = Some (JStr ''safe_mode_active'')"
    using status_activateSafeMode by (rule status_withVoice)
  ultimately show "\<exists>r. handleSpecialCommands now now2 d tm ''I am stressed and overwhelmed'' u =
      Inr (Some r, tm) \<and> status r = Some (JStr ''safe_mode_active'')"
    by blast
qed

lemma demo_triggers:
  "firstTrigger_spec ''I am stressed and overwhelmed'' = Some SafeMode"
  "firstTrigger_spec ''What is recursion'' = None"
  "firstTrigger_spec ''start work and scan this'' = Some SessionStart"
  by code_simp+

lemma demo_server_configured: "currentActive demo_server \<in> set providers"
  by (simp add: demo_server_def initialActive_def providers_def primary_def)

text \<open>
  Three runs of C6: a safe-mode command, a command with keywords of two trigger sets,
  and a command with no keyword.
\<close>

theorem router_first_match_wins_witness:
  "firstTrigger_spec ''I am stressed and overwhelmed'' = Some SafeMode \<and>
   (\<exists>r tm'. handleSpecialCommands 0 0 12 noTimers ''I am stressed and overwhelmed'' ''alice'' =
        Inr (Some r, tm') \<and> statusIn r (triggerStatuses SafeMode)) \<and>
   firstTrigger_spec ''start work and scan this'' = Some SessionStart \<and>
   (\<exists>r tm'. handleSpecialCommands 0 0 12 noTimers ''start work and scan this'' ''alice'' =
        Inr (Some r, tm') \<and> statusIn r (triggerStatuses SessionStart)) \<and>
   firstTrigger_spec ''What is recursion'' = None \<and>
   handleSpecialCommands 0 0 12 noTimers ''What is recursion'' ''alice'' = Inr (None, noTimers) \<and>
   currentActive demo_server \<in> set providers \<and>
   (\<exists>a body.
      getAIResponse demo_keys (network demo_env) (timeString demo_env) (currentActive demo_server)
        ''What is recursion'' = Inr a \<and>
      auraProcess demo_keys demo_env demo_server ''What is recursion'' None =
        Inr (body, demo_server\<lparr>currentActive := active a\<rparr>) \<and>
      getProp body ''response'' = Some (JStr (reply a)) \<and>
      getProp body ''commandType'' = Some (JStr ''ai_conversation''))"
proof -
  note A = router_first_match_wins
    [where command = "''I am stressed and overwhelmed''" and now = 0 and ?now2.0 = 0 and d = 12 and tm = noTimers
       and u = "''alice''" and srv = demo_server and keys = demo_keys and env = demo_env and uo = None]
  note B = router_first_match_wins
    [where command = "''start work and scan this''" and now = 0 and ?now2.0 = 0 and d = 12 and tm = noTimers
       and u = "''alice''" and srv = demo_server and keys = demo_keys and env = demo_env and uo = None]
  note C = router_first_match_wins
    [where command = "''What is recursion''" and now = 0 and ?now2.0 = 0 and d = 12 and tm = noTimers
       and u = "''alice''" and srv = demo_server and keys = demo_keys and env = demo_env and uo = None]
  have a: "\<exists>r tm'. handleSpecialCommands 0 0 12 noTimers ''I am stressed and overwhelmed'' ''alice'' =
        Inr (Some r, tm') \<and> statusIn r (triggerStatuses SafeMode)"
    using conjunct1 [OF A] by (simp add: demo_triggers)
  have b: "\<exists>r tm'. handleSpecialCommands 0 0 12 noTimers ''start work and scan this'' ''alice'' =
        Inr (Some r, tm') \<and> statusIn r (triggerStatuses SessionStart)"
    using conjunct1 [OF B] by (simp add: demo_triggers)
  have c: "handleSpecialCommands 0 0 12 noTimers ''What is recursion'' ''alice'' = Inr (None, noTimers)"
    using conjunct1 [OF C] by (simp add: demo_triggers)
  have d: "\<exists>a body.
      getAIResponse demo_keys (network demo_env) (timeString demo_env) (currentActive demo_server)
        ''What is recursion'' = Inr a \<and>
      auraProcess demo_keys demo_env demo_server ''What is recursion'' None =
        Inr (body, demo_server\<lparr>currentActive := active a\<rparr>) \<and>
      getProp body ''response'' = Some (JStr (reply a)) \<and>
      getProp body ''commandType'' = Some (JStr ''ai_conversation'')"
    using conjunct1 [OF conjunct2 [OF C]] demo_triggers(2) demo_server_configured by simp
  show ?thesis
    using a b c d demo_triggers demo_server_configured by (intro conjI)
qed

end
